theory Spec2Isabelle
  imports Main "HOL-Library.Word"
begin

text \<open>
  The form controller of the AlgoRhythm sign-in page: its field validators, its password
  strength meter and the way its submit handlers sequence a mocked authentication call.
  The repository holds three versions of the controller. Two are in script.js: the
  "FIXED AuthManager" (lines 5-1227), which the definitions below follow unless they say
  otherwise, and the "Modern Authentication Manager" (lines 1264-2360), whose functions
  carry the suffix \<open>_v2\<close> or \<open>_rich\<close> where they differ. The third is script-merged.js,
  suffix \<open>_merged\<close>.
\<close>

section \<open>JavaScript strings and values\<close>

text \<open>
  A JavaScript string is a sequence of UTF-16 code units; \<open>length\<close>, the regular
  expressions (none has the \<open>u\<close> flag) and \<open>===\<close> all work on code units.
\<close>

type_synonym code_unit = "16 word"
type_synonym jsstring = "code_unit list"

definition js :: "string \<Rightarrow> jsstring" where
  \<comment> \<open>an ASCII string literal of the source, as code units\<close>
  "js lit = map of_char lit"

text \<open>
  The form fields reach the validators through \<open>Object.fromEntries(new FormData(form))\<close>:
  an object whose properties are strings; a property that is not there reads as
  \<open>undefined\<close>.
\<close>

datatype jsval = Undefined | Str jsstring

type_synonym jsobject = "string \<rightharpoonup> jsstring"

definition get_prop :: "jsobject \<Rightarrow> string \<Rightarrow> jsval" where
  "get_prop obj k = (case obj k of None \<Rightarrow> Undefined | Some s \<Rightarrow> Str s)"

datatype js_error = TypeError | ReferenceError | Error string

definition truthy :: "jsval \<Rightarrow> bool" where
  "truthy v = (case v of Undefined \<Rightarrow> False | Str s \<Rightarrow> s \<noteq> [])"

definition ToString :: "jsval \<Rightarrow> jsstring" where
  "ToString v = (case v of Undefined \<Rightarrow> js ''undefined'' | Str s \<Rightarrow> s)"

definition js_length :: "jsval \<Rightarrow> js_error + nat" where
  \<comment> \<open>\<open>v.length\<close>: reading a property of \<open>undefined\<close> throws\<close>
  "js_length v = (case v of Undefined \<Rightarrow> Inl TypeError | Str s \<Rightarrow> Inr (length s))"

definition strict_neq :: "jsval \<Rightarrow> jsval \<Rightarrow> bool" where
  \<comment> \<open>\<open>a !== b\<close>\<close>
  "strict_neq a b = (a \<noteq> b)"

subsection \<open>Character classes\<close>

definition is_lower :: "code_unit \<Rightarrow> bool" where
  \<comment> \<open>\<open>[a-z]\<close>\<close>
  "is_lower c = (0x61 \<le> c \<and> c \<le> 0x7A)"

definition is_upper :: "code_unit \<Rightarrow> bool" where
  \<comment> \<open>\<open>[A-Z]\<close>\<close>
  "is_upper c = (0x41 \<le> c \<and> c \<le> 0x5A)"

definition is_digit :: "code_unit \<Rightarrow> bool" where
  \<comment> \<open>\<open>[0-9]\<close>, and \<open>\d\<close> without the \<open>u\<close> flag\<close>
  "is_digit c = (0x30 \<le> c \<and> c \<le> 0x39)"

definition is_symbol :: "code_unit \<Rightarrow> bool" where
  \<comment> \<open>\<open>[^A-Za-z0-9]\<close>\<close>
  "is_symbol c = (\<not> (is_upper c \<or> is_lower c \<or> is_digit c))"

definition is_line_terminator :: "code_unit \<Rightarrow> bool" where
  \<comment> \<open>LF, CR, LINE SEPARATOR, PARAGRAPH SEPARATOR: what \<open>.\<close> does not match\<close>
  "is_line_terminator c = (c = 0x0A \<or> c = 0x0D \<or> c = 0x2028 \<or> c = 0x2029)"

definition is_whitespace :: "code_unit \<Rightarrow> bool" where
  \<comment> \<open>\<open>\s\<close>: WhiteSpace and LineTerminator of ECMAScript; also what \<open>trim\<close> strips\<close>
  "is_whitespace c =
     (c = 0x09 \<or> c = 0x0A \<or> c = 0x0B \<or> c = 0x0C \<or> c = 0x0D \<or> c = 0x20 \<or> c = 0xA0
      \<or> c = 0x1680 \<or> (0x2000 \<le> c \<and> c \<le> 0x200A) \<or> c = 0x2028 \<or> c = 0x2029
      \<or> c = 0x202F \<or> c = 0x205F \<or> c = 0x3000 \<or> c = 0xFEFF)"

definition js_trim_string :: "jsstring \<Rightarrow> jsstring" where
  "js_trim_string s = rev (dropWhile is_whitespace (rev (dropWhile is_whitespace s)))"

definition js_trim :: "jsval \<Rightarrow> js_error + jsstring" where
  \<comment> \<open>\<open>v.trim()\<close>\<close>
  "js_trim v = (case v of Undefined \<Rightarrow> Inl TypeError | Str s \<Rightarrow> Inr (js_trim_string s))"

section \<open>Regular expressions\<close>

subsection \<open>Anchored patterns: a matcher by derivatives\<close>

datatype regex =
    RNever
  | REmpty
  | RClass "code_unit \<Rightarrow> bool"
  | RSeq regex regex
  | RAlt regex regex
  | RStar regex

definition RPlus :: "regex \<Rightarrow> regex" where
  \<comment> \<open>\<open>r+\<close>\<close>
  "RPlus r = RSeq r (RStar r)"

definition RChar :: "char \<Rightarrow> regex" where
  "RChar ch = RClass (\<lambda>c. c = of_char ch)"

fun nullable :: "regex \<Rightarrow> bool" where
  "nullable RNever = False"
| "nullable REmpty = True"
| "nullable (RClass P) = False"
| "nullable (RSeq r s) = (nullable r \<and> nullable s)"
| "nullable (RAlt r s) = (nullable r \<or> nullable s)"
| "nullable (RStar r) = True"

fun deriv :: "code_unit \<Rightarrow> regex \<Rightarrow> regex" where
  "deriv c RNever = RNever"
| "deriv c REmpty = RNever"
| "deriv c (RClass P) = (if P c then REmpty else RNever)"
| "deriv c (RSeq r s) =
     (if nullable r then RAlt (RSeq (deriv c r) s) (deriv c s) else RSeq (deriv c r) s)"
| "deriv c (RAlt r s) = RAlt (deriv c r) (deriv c s)"
| "deriv c (RStar r) = RSeq (deriv c r) (RStar r)"

fun matches :: "regex \<Rightarrow> jsstring \<Rightarrow> bool" where
  \<comment> \<open>\<open>/^r$/.test(s)\<close>: without the \<open>m\<close> flag the anchors are the two ends of the input\<close>
  "matches r [] = nullable r"
| "matches r (c # cs) = matches (deriv c r) cs"

text \<open>The strings a pattern denotes, to state what the matcher decides.\<close>

inductive_set star :: "jsstring set \<Rightarrow> jsstring set" for L :: "jsstring set" where
  star_nil: "[] \<in> star L"
| star_app: "u \<in> L \<Longrightarrow> v \<in> star L \<Longrightarrow> u @ v \<in> star L"

definition conc :: "jsstring set \<Rightarrow> jsstring set \<Rightarrow> jsstring set" where
  "conc A B = {u @ v | u v. u \<in> A \<and> v \<in> B}"

fun lang :: "regex \<Rightarrow> jsstring set" where
  "lang RNever = {}"
| "lang REmpty = {[]}"
| "lang (RClass P) = {[c] | c. P c}"
| "lang (RSeq r s) = conc (lang r) (lang s)"
| "lang (RAlt r s) = lang r \<union> lang s"
| "lang (RStar r) = star (lang r)"

subsection \<open>Patterns without anchors\<close>

fun search :: "(jsstring \<Rightarrow> bool) \<Rightarrow> jsstring \<Rightarrow> bool" where
  \<comment> \<open>\<open>/r/.test(s)\<close>: the pattern is tried at every start index, the end of the input
     included; \<open>here\<close> says whether it matches a prefix of what is left\<close>
  "search here [] = here []"
| "search here (c # cs) = (here (c # cs) \<or> search here cs)"

definition class_here :: "(code_unit \<Rightarrow> bool) \<Rightarrow> jsstring \<Rightarrow> bool" where
  \<comment> \<open>a pattern that is one character class\<close>
  "class_here P s = (case s of [] \<Rightarrow> False | c # _ \<Rightarrow> P c)"

fun dot_star_then :: "(code_unit \<Rightarrow> bool) \<Rightarrow> jsstring \<Rightarrow> bool" where
  \<comment> \<open>\<open>.*[P]\<close>: code units that are not line terminators, then one of the class\<close>
  "dot_star_then P [] = False"
| "dot_star_then P (c # cs) = (P c \<or> (\<not> is_line_terminator c \<and> dot_star_then P cs))"

definition complexity_here :: "jsstring \<Rightarrow> bool" where
  \<comment> \<open>\<open>(?=.*[a-z])(?=.*[A-Z])(?=.*\d)\<close>: three lookaheads from the same index\<close>
  "complexity_here s =
     (dot_star_then is_lower s \<and> dot_star_then is_upper s \<and> dot_star_then is_digit s)"

definition repeat_here :: "jsstring \<Rightarrow> bool" where
  \<comment> \<open>\<open>(.)\1{2,}\<close>: a code unit that \<open>.\<close> matches, then itself twice or more\<close>
  "repeat_here s =
     (case s of a # b # c # _ \<Rightarrow> \<not> is_line_terminator a \<and> b = a \<and> c = a | _ \<Rightarrow> False)"

definition ci_matches :: "char \<Rightarrow> code_unit \<Rightarrow> bool" where
  \<comment> \<open>a lower-case ASCII letter of a pattern with the \<open>i\<close> flag: both sides are
     upper-cased, and no code unit from 128 on is taken to an ASCII letter\<close>
  "ci_matches p c = (c = of_char p \<or> c = of_char p - 0x20)"

fun literal_here_ci :: "string \<Rightarrow> jsstring \<Rightarrow> bool" where
  "literal_here_ci [] s = True"
| "literal_here_ci (p # ps) [] = False"
| "literal_here_ci (p # ps) (c # cs) = (ci_matches p c \<and> literal_here_ci ps cs)"

definition sequential_patterns :: "string list" where
  "sequential_patterns =
     [''abc'', ''bcd'', ''cde'', ''def'', ''efg'', ''fgh'', ''ghi'', ''hij'', ''ijk'', ''jkl'',
      ''klm'', ''lmn'', ''mno'', ''nop'', ''opq'', ''pqr'', ''qrs'', ''rst'', ''stu'', ''tuv'',
      ''uvw'', ''vwx'', ''wxy'', ''xyz'']"

definition sequential_here :: "jsstring \<Rightarrow> bool" where
  \<comment> \<open>\<open>(?:abc|bcd|...|xyz)\<close> with the \<open>i\<close> flag\<close>
  "sequential_here s = list_ex (\<lambda>p. literal_here_ci p s) sequential_patterns"

section \<open>Field validators\<close>

definition not_space_or_at :: "code_unit \<Rightarrow> bool" where
  \<comment> \<open>\<open>[^\s@]\<close>\<close>
  "not_space_or_at c = (\<not> is_whitespace c \<and> c \<noteq> of_char CHR ''@'')"

definition emailRegex :: regex where
  \<comment> \<open>\<open>/^[^\s@]+@[^\s@]+\.[^\s@]+$/\<close>\<close>
  "emailRegex =
     RSeq (RPlus (RClass not_space_or_at))
       (RSeq (RChar CHR ''@'')
         (RSeq (RPlus (RClass not_space_or_at))
           (RSeq (RChar CHR ''.'')
             (RPlus (RClass not_space_or_at)))))"

definition isValidEmail :: "jsval \<Rightarrow> bool" where
  \<comment> \<open>\<open>emailRegex.test(email)\<close>; \<open>test\<close> converts its argument to a string first\<close>
  "isValidEmail email = matches emailRegex (ToString email)"

definition email_pattern :: "jsstring \<Rightarrow> bool" where
  \<comment> \<open>the pattern read as the spec writes it: local part, \<open>@\<close>, domain, \<open>.\<close>, suffix,
     each a non-empty run of code units that are neither whitespace nor \<open>@\<close>\<close>
  "email_pattern s =
     (\<exists>l d t. s = l @ [of_char CHR ''@''] @ d @ [of_char CHR ''.''] @ t
        \<and> l \<noteq> [] \<and> d \<noteq> [] \<and> t \<noteq> []
        \<and> list_all not_space_or_at l \<and> list_all not_space_or_at d \<and> list_all not_space_or_at t)"

subsection \<open>Password strength\<close>

record level_entry =
  min_score :: nat
  max_score :: nat
  level :: string
  level_text :: string

definition levels :: "level_entry list" where
  "levels =
     [\<lparr>min_score = 0, max_score = 2, level = ''weak'', level_text = ''Weak password''\<rparr>,
      \<lparr>min_score = 3, max_score = 4, level = ''fair'', level_text = ''Fair password''\<rparr>,
      \<lparr>min_score = 5, max_score = 6, level = ''good'', level_text = ''Good password''\<rparr>,
      \<lparr>min_score = 7, max_score = 8, level = ''strong'', level_text = ''Strong password''\<rparr>]"

definition find_level :: "nat \<Rightarrow> level_entry" where
  \<comment> \<open>\<open>levels.find(level => score >= level.min && score <= level.max) || levels[0]\<close>\<close>
  "find_level score =
     (case find (\<lambda>l. score \<ge> min_score l \<and> score \<le> max_score l) levels of
        Some l \<Rightarrow> l
      | None \<Rightarrow> levels ! 0)"

definition password_score :: "jsstring \<Rightarrow> nat" where
  \<comment> \<open>the six increments of script.js:587-592 (and script-merged.js:332-337, the same text)\<close>
  "password_score password =
     (let score = 0;
          score = (if length password \<ge> 8 then score + 1 else score);
          score = (if length password \<ge> 12 then score + 1 else score);
          score = (if search (class_here is_lower) password then score + 1 else score);
          score = (if search (class_here is_upper) password then score + 1 else score);
          score = (if search (class_here is_digit) password then score + 1 else score);
          score = (if search (class_here is_symbol) password then score + 1 else score)
      in score)"

definition calculatePasswordStrength :: "jsstring \<Rightarrow> level_entry" where
  \<comment> \<open>script.js:584-602; script-merged.js:329-347 is the same function\<close>
  "calculatePasswordStrength password = find_level (password_score password)"

definition password_score_rich :: "jsstring \<Rightarrow> nat" where
  \<comment> \<open>the eight increments of script.js:1672-1683\<close>
  "password_score_rich password =
     (let score = 0;
          score = (if length password \<ge> 8 then score + 1 else score);
          score = (if length password \<ge> 12 then score + 1 else score);
          score = (if search (class_here is_lower) password then score + 1 else score);
          score = (if search (class_here is_upper) password then score + 1 else score);
          score = (if search (class_here is_digit) password then score + 1 else score);
          score = (if search (class_here is_symbol) password then score + 1 else score);
          score = (if \<not> search repeat_here password then score + 1 else score);
          score = (if \<not> search sequential_here password then score + 1 else score)
      in score)"

definition calculatePasswordStrength_rich :: "jsstring \<Rightarrow> level_entry" where
  \<comment> \<open>script.js:1668-1693, the second AuthManager\<close>
  "calculatePasswordStrength_rich password = find_level (password_score_rich password)"

definition band_rank :: "string \<Rightarrow> nat" where
  \<comment> \<open>the order of the bands: weak < fair < good < strong\<close>
  "band_rank l =
     (if l = ''strong'' then 3 else if l = ''good'' then 2 else if l = ''fair'' then 1 else 0)"

subsection \<open>Password policy\<close>

datatype password_validation =
    Valid  \<comment> \<open>\<open>{ isValid: true }\<close>\<close>
  | Invalid string  \<comment> \<open>\<open>{ isValid: false, message: ... }\<close>\<close>

definition isValid :: "password_validation \<Rightarrow> bool" where
  "isValid v = (case v of Valid \<Rightarrow> True | Invalid _ \<Rightarrow> False)"

definition validatePassword :: "jsval \<Rightarrow> js_error + password_validation" where
  \<comment> \<open>script.js:604-618\<close>
  "validatePassword password =
     (if \<not> truthy password then Inr (Invalid ''Password is required'')
      else case js_length password of
        Inl e \<Rightarrow> Inl e
      | Inr n \<Rightarrow>
          if n < 8 then Inr (Invalid ''Password must be at least 8 characters long'')
          else if \<not> search complexity_here (ToString password)
          then Inr (Invalid ''Password must contain uppercase, lowercase, and number'')
          else Inr Valid)"

definition validatePassword_v2 :: "jsval \<Rightarrow> js_error + password_validation" where
  \<comment> \<open>script.js:1695-1709, the second AuthManager: another wording of the third message\<close>
  "validatePassword_v2 password =
     (if \<not> truthy password then Inr (Invalid ''Password is required'')
      else case js_length password of
        Inl e \<Rightarrow> Inl e
      | Inr n \<Rightarrow>
          if n < 8 then Inr (Invalid ''Password must be at least 8 characters long'')
          else if \<not> search complexity_here (ToString password)
          then Inr (Invalid
            ''Password must contain at least one uppercase letter, one lowercase letter, and one number'')
          else Inr Valid)"

definition validatePassword_merged :: "jsval \<Rightarrow> js_error + password_validation" where
  \<comment> \<open>script-merged.js:349-359\<close>
  "validatePassword_merged password =
     (if \<not> truthy password then Inr (Invalid ''Password is required'')
      else case js_length password of
        Inl e \<Rightarrow> Inl e
      | Inr n \<Rightarrow>
          if n < 8 then Inr (Invalid ''Password must be at least 8 characters long'')
          else Inr Valid)"

subsection \<open>Error slots\<close>

text \<open>
  The page as the validators see it: the elements that exist, by id, each with its text
  and its \<open>aria-live\<close> attribute. \<open>document.getElementById\<close> of an id that is not there
  is \<open>null\<close>.
\<close>

record element =
  textContent :: string
  aria_live :: "string option"

type_synonym document = "string \<rightharpoonup> element"

definition showFieldError :: "string \<Rightarrow> string \<Rightarrow> document \<Rightarrow> document" where
  \<comment> \<open>script.js:625-631\<close>
  "showFieldError elementId msg doc =
     (case doc elementId of
        None \<Rightarrow> doc
      | Some errorElement \<Rightarrow>
          doc(elementId \<mapsto> errorElement\<lparr>textContent := msg, aria_live := Some ''polite''\<rparr>))"

definition clearFieldError :: "string \<Rightarrow> document \<Rightarrow> document" where
  \<comment> \<open>script.js:633-639\<close>
  "clearFieldError elementId doc =
     (case doc elementId of
        None \<Rightarrow> doc
      | Some errorElement \<Rightarrow>
          doc(elementId \<mapsto> errorElement\<lparr>textContent := [], aria_live := None\<rparr>))"

definition showFieldError_merged :: "string \<Rightarrow> string \<Rightarrow> document \<Rightarrow> document" where
  \<comment> \<open>script-merged.js:366-371\<close>
  "showFieldError_merged elementId msg doc =
     (case doc elementId of
        None \<Rightarrow> doc
      | Some errorElement \<Rightarrow> doc(elementId \<mapsto> errorElement\<lparr>textContent := msg\<rparr>))"

definition clearFieldError_merged :: "string \<Rightarrow> document \<Rightarrow> document" where
  \<comment> \<open>script-merged.js:373-378\<close>
  "clearFieldError_merged elementId doc =
     (case doc elementId of
        None \<Rightarrow> doc
      | Some errorElement \<Rightarrow> doc(elementId \<mapsto> errorElement\<lparr>textContent := []\<rparr>))"

definition report :: "bool \<Rightarrow> string \<Rightarrow> string \<Rightarrow> bool \<times> document \<Rightarrow> bool \<times> document" where
  \<comment> \<open>one check of a form validator:
     \<open>if (failed) { this.showFieldError(slot, msg); isValid = false; } else { this.clearFieldError(slot); }\<close>;
     the pair is the local \<open>isValid\<close> and the page\<close>
  "report failed slot msg st =
     (case st of (valid, doc) \<Rightarrow>
        if failed then (False, showFieldError slot msg doc) else (valid, clearFieldError slot doc))"

definition report_merged :: "bool \<Rightarrow> string \<Rightarrow> string \<Rightarrow> bool \<times> document \<Rightarrow> bool \<times> document" where
  "report_merged failed slot msg st =
     (case st of (valid, doc) \<Rightarrow>
        if failed then (False, showFieldError_merged slot msg doc)
        else (valid, clearFieldError_merged slot doc))"

definition or_else :: "bool \<Rightarrow> js_error + bool \<Rightarrow> js_error + bool" where
  \<comment> \<open>\<open>a || b\<close>: \<open>b\<close> is evaluated, and can throw, only when \<open>a\<close> is false\<close>
  "or_else a b = (if a then Inr True else b)"

definition failure_message :: "password_validation \<Rightarrow> string" where
  \<comment> \<open>\<open>passwordValidation.message\<close>, read on the failing branch only\<close>
  "failure_message v = (case v of Invalid m \<Rightarrow> m | Valid \<Rightarrow> ''undefined'')"

subsection \<open>Form validators\<close>

definition validateLoginForm :: "jsobject \<Rightarrow> document \<Rightarrow> js_error + bool \<times> document" where
  \<comment> \<open>script.js:461-480\<close>
  "validateLoginForm credentials doc =
     (let email = get_prop credentials ''email'';
          password = get_prop credentials ''password'';
          st = (True, doc);
          st = report (\<not> isValidEmail email) ''email-error''
                 ''Please enter a valid email address'' st
      in case or_else (\<not> truthy password) (map_sum id (\<lambda>n. n < 1) (js_length password)) of
           Inl e \<Rightarrow> Inl e
         | Inr missing \<Rightarrow> Inr (report missing ''password-error'' ''Password is required'' st))"

definition validateLoginForm_merged :: "jsobject \<Rightarrow> document \<Rightarrow> js_error + bool \<times> document" where
  \<comment> \<open>script-merged.js:217-236\<close>
  "validateLoginForm_merged credentials doc =
     (let email = get_prop credentials ''email'';
          password = get_prop credentials ''password'';
          st = (True, doc);
          st = report_merged (\<not> isValidEmail email) ''email-error''
                 ''Please enter a valid email address'' st
      in case or_else (\<not> truthy password) (map_sum id (\<lambda>n. n < 1) (js_length password)) of
           Inl e \<Rightarrow> Inl e
         | Inr missing \<Rightarrow>
             Inr (report_merged missing ''password-error'' ''Password is required'' st))"

definition validateRegisterForm :: "jsobject \<Rightarrow> document \<Rightarrow> js_error + bool \<times> document" where
  \<comment> \<open>script.js:482-520\<close>
  "validateRegisterForm userData doc =
     (let name = get_prop userData ''name'';
          email = get_prop userData ''email'';
          password = get_prop userData ''password'';
          confirmPassword = get_prop userData ''confirmPassword'';
          st = (True, doc)
      in case or_else (\<not> truthy name) (map_sum id (\<lambda>t. length t < 2) (js_trim name)) of
           Inl e \<Rightarrow> Inl e
         | Inr name_bad \<Rightarrow>
            (let st = report name_bad ''name-error''
                        ''Please enter your full name (at least 2 characters)'' st;
                 st = report (\<not> isValidEmail email) ''register-email-error''
                        ''Please enter a valid email address'' st
             in case validatePassword password of
                  Inl e \<Rightarrow> Inl e
                | Inr passwordValidation \<Rightarrow>
                   (let st = report (\<not> isValid passwordValidation) ''register-password-error''
                               (failure_message passwordValidation) st;
                        st = report (strict_neq password confirmPassword)
                               ''confirm-password-error'' ''Passwords do not match'' st
                    in Inr st)))"

definition validateRegisterForm_merged :: "jsobject \<Rightarrow> document \<Rightarrow> js_error + bool \<times> document" where
  \<comment> \<open>script-merged.js:238-272\<close>
  "validateRegisterForm_merged userData doc =
     (let name = get_prop userData ''name'';
          email = get_prop userData ''email'';
          password = get_prop userData ''password'';
          confirmPassword = get_prop userData ''confirmPassword'';
          st = (True, doc)
      in case or_else (\<not> truthy name) (map_sum id (\<lambda>t. length t < 2) (js_trim name)) of
           Inl e \<Rightarrow> Inl e
         | Inr name_bad \<Rightarrow>
            (let st = report_merged name_bad ''name-error''
                        ''Please enter your full name (at least 2 characters)'' st;
                 st = report_merged (\<not> isValidEmail email) ''register-email-error''
                        ''Please enter a valid email address'' st
             in case validatePassword_merged password of
                  Inl e \<Rightarrow> Inl e
                | Inr passwordValidation \<Rightarrow>
                   (let st = report_merged (\<not> isValid passwordValidation)
                               ''register-password-error'' (failure_message passwordValidation) st;
                        st = report_merged (strict_neq password confirmPassword)
                               ''confirm-password-error'' ''Passwords do not match'' st
                    in Inr st)))"

definition validatePasswordMatch :: "jsstring option \<Rightarrow> jsstring option \<Rightarrow> document \<Rightarrow> document" where
  \<comment> \<open>script.js:571-582; the arguments are the values of the two cached inputs,
     \<open>None\<close> for an input that is not on the page\<close>
  "validatePasswordMatch registerPassword confirmPassword doc =
     (case (registerPassword, confirmPassword) of
        (Some password, Some confirm) \<Rightarrow>
          if truthy (Str confirm) \<and> strict_neq (Str password) (Str confirm)
          then showFieldError ''confirm-password-error'' ''Passwords do not match'' doc
          else clearFieldError ''confirm-password-error'' doc
      | _ \<Rightarrow> doc)"

definition validatePasswordMatch_merged ::
  "jsstring option \<Rightarrow> jsstring option \<Rightarrow> document \<Rightarrow> document" where
  \<comment> \<open>script-merged.js:313-327\<close>
  "validatePasswordMatch_merged passwordInput confirmInput doc =
     (case (passwordInput, confirmInput) of
        (Some password, Some confirm) \<Rightarrow>
          if truthy (Str confirm) \<and> strict_neq (Str password) (Str confirm)
          then showFieldError_merged ''confirm-password-error'' ''Passwords do not match'' doc
          else clearFieldError_merged ''confirm-password-error'' doc
      | _ \<Rightarrow> doc)"

subsection \<open>The claims' words\<close>

text \<open>
  What the specification says of the strength checks and of the error slots, written
  down on its own so that the functions above can be compared with it.
\<close>

datatype char_class = LowerCase | UpperCase | Digit | Symbol

definition class_of :: "code_unit \<Rightarrow> char_class" where
  \<comment> \<open>the character class of a code unit: lowercase, uppercase, digit or symbol\<close>
  "class_of c =
     (if is_lower c then LowerCase else if is_upper c then UpperCase
      else if is_digit c then Digit else Symbol)"

definition repeated_run :: "jsstring \<Rightarrow> bool" where
  \<comment> \<open>"a run of 3+ repeated characters"\<close>
  "repeated_run s = (\<exists>u c v. s = u @ [c, c, c] @ v)"

definition score_as_claimed :: "jsstring \<Rightarrow> nat" where
  \<comment> \<open>one point for each satisfied check of the richer variant, as the claim lists them\<close>
  "score_as_claimed s =
     of_bool (8 \<le> length s) + of_bool (12 \<le> length s) + of_bool (list_ex is_lower s)
     + of_bool (list_ex is_upper s) + of_bool (list_ex is_digit s) + of_bool (list_ex is_symbol s)
     + of_bool (\<not> repeated_run s) + of_bool (\<not> search sequential_here s)"

definition slot_after :: "bool \<Rightarrow> string \<Rightarrow> element option \<Rightarrow> element option" where
  \<comment> \<open>the error-reporting contract for one check's slot in script.js: the message when
     the check fails, cleared when it passes; an id with no element stays without one\<close>
  "slot_after passed msg before =
     map_option (\<lambda>el. if passed then el\<lparr>textContent := [], aria_live := None\<rparr>
                      else el\<lparr>textContent := msg, aria_live := Some ''polite''\<rparr>) before"

definition slot_after_merged :: "bool \<Rightarrow> string \<Rightarrow> element option \<Rightarrow> element option" where
  \<comment> \<open>the same for script-merged.js, which leaves \<open>aria-live\<close> alone\<close>
  "slot_after_merged passed msg before =
     map_option (\<lambda>el. if passed then el\<lparr>textContent := []\<rparr> else el\<lparr>textContent := msg\<rparr>) before"

definition name_check :: "jsobject \<Rightarrow> bool" where
  \<comment> \<open>"trimmed name length at least 2"\<close>
  "name_check u =
     (case get_prop u ''name'' of Undefined \<Rightarrow> False | Str n \<Rightarrow> 2 \<le> length (js_trim_string n))"

definition email_check :: "jsobject \<Rightarrow> bool" where
  \<comment> \<open>"syntactically valid email"\<close>
  "email_check u = isValidEmail (get_prop u ''email'')"

definition password_check :: "jsobject \<Rightarrow> bool" where
  \<comment> \<open>"password passing validatePassword"\<close>
  "password_check u = (validatePassword (get_prop u ''password'') = Inr Valid)"

definition password_message :: "jsobject \<Rightarrow> string" where
  \<comment> \<open>the message of the failing password check\<close>
  "password_message u =
     (case validatePassword (get_prop u ''password'') of Inr (Invalid m) \<Rightarrow> m | _ \<Rightarrow> [])"

definition password_check_merged :: "jsobject \<Rightarrow> bool" where
  "password_check_merged u = (validatePassword_merged (get_prop u ''password'') = Inr Valid)"

definition password_message_merged :: "jsobject \<Rightarrow> string" where
  "password_message_merged u =
     (case validatePassword_merged (get_prop u ''password'') of
        Inr (Invalid m) \<Rightarrow> m
      | _ \<Rightarrow> [])"

definition match_check :: "jsobject \<Rightarrow> bool" where
  \<comment> \<open>"password equal to confirmPassword"\<close>
  "match_check u = (get_prop u ''password'' = get_prop u ''confirmPassword'')"

definition all_clear :: document where
  \<comment> \<open>a page with the six error slots, all empty\<close>
  "all_clear =
     [''name-error'' \<mapsto> \<lparr>textContent = [], aria_live = None\<rparr>,
      ''register-email-error'' \<mapsto> \<lparr>textContent = [], aria_live = None\<rparr>,
      ''register-password-error'' \<mapsto> \<lparr>textContent = [], aria_live = None\<rparr>,
      ''confirm-password-error'' \<mapsto> \<lparr>textContent = [], aria_live = None\<rparr>,
      ''email-error'' \<mapsto> \<lparr>textContent = [], aria_live = None\<rparr>,
      ''password-error'' \<mapsto> \<lparr>textContent = [], aria_live = None\<rparr>]"

definition stale_password_error :: document where
  \<comment> \<open>the same page after a login attempt without a password\<close>
  "stale_password_error =
     all_clear(''password-error'' \<mapsto>
       \<lparr>textContent = ''Password is required'', aria_live = Some ''polite''\<rparr>)"

definition stale_confirm_error :: document where
  \<comment> \<open>the same page while the mismatch error of an earlier check is still shown\<close>
  "stale_confirm_error =
     all_clear(''confirm-password-error'' \<mapsto>
       \<lparr>textContent = ''Passwords do not match'', aria_live = Some ''polite''\<rparr>)"

definition empty_confirm_user :: jsobject where
  \<comment> \<open>a registration with a strong password and nothing in the confirm field\<close>
  "empty_confirm_user =
     [''name'' \<mapsto> js ''Jo'', ''email'' \<mapsto> js ''a@b.co'', ''password'' \<mapsto> js ''Abcdefg1'',
      ''confirmPassword'' \<mapsto> []]"

section \<open>Submission\<close>

subsection \<open>The mocked authentication call\<close>

record user_record =
  user_id :: jsstring
  user_email :: jsval
  user_name :: jsval

record auth_result =
  success :: bool
  user :: user_record
  token :: string

definition authenticateUser :: "jsobject \<Rightarrow> string \<Rightarrow> jsstring \<Rightarrow> js_error + auth_result" where
  \<comment> \<open>script.js:646-671, from the end of its delay on; \<open>uuid\<close> is what
     \<open>crypto.randomUUID()\<close> returns\<close>
  "authenticateUser credentials kind uuid =
     (if get_prop credentials ''email'' = Str (js ''test@error.com'')
      then Inl (Error ''Invalid credentials'')
      else if get_prop credentials ''email'' = Str (js ''test@network.com'')
      then Inl (Error ''Network connection failed'')
      else Inr \<lparr>success = True,
                user = \<lparr>user_id = uuid,
                        user_email = get_prop credentials ''email'',
                        user_name = (if truthy (get_prop credentials ''name'')
                                     then get_prop credentials ''name'' else Str (js ''User''))\<rparr>,
                token = ''mock-jwt-token''\<rparr>)"

definition auth_delay :: "string \<Rightarrow> nat \<Rightarrow> nat" where
  \<comment> \<open>\<open>type === 'register' ? 2000 + Math.random() * 1000 : 1000 + Math.random() * 500\<close>,
     in milliseconds; \<open>jitter\<close> is the random term\<close>
  "auth_delay kind jitter = (if kind = ''register'' then 2000 + jitter else 1000 + jitter)"

definition login_call_merged :: "jsobject \<Rightarrow> js_error + unit" where
  \<comment> \<open>script-merged.js:131-136, the simulated call inside \<open>handleLogin\<close>, after
     \<open>delay(1500)\<close>\<close>
  "login_call_merged credentials =
     (if get_prop credentials ''email'' = Str (js ''test@error.com'')
      then Inl (Error ''Invalid credentials'') else Inr ())"

definition register_call_merged :: "jsobject \<Rightarrow> js_error + unit" where
  \<comment> \<open>script-merged.js:167-168, the simulated call inside \<open>handleRegister\<close>: \<open>delay(2000)\<close>
     and nothing after it\<close>
  "register_call_merged userData = Inr ()"

definition error_message :: "js_error \<Rightarrow> string" where
  \<comment> \<open>\<open>error.message\<close>; the engine's text for its own errors is not modelled\<close>
  "error_message e = (case e of Error m \<Rightarrow> m | _ \<Rightarrow> [])"

subsection \<open>The page and its timers\<close>

text \<open>
  Everything runs on one thread: a submit handler runs up to its first \<open>await\<close>, and
  what follows an \<open>await\<close> of a delay runs when that timer fires. A \<open>task\<close> is what a
  timer runs. Calls that only restyle the button, the status line, the modal or a toast
  are recorded as \<open>effects\<close>; the timer by which \<open>setButtonSuccess\<close> restores the button
  colour is left out.
\<close>

datatype task =
    AuthenticateRegister jsobject jsstring
      \<comment> \<open>script.js: \<open>authenticateUser(userData, 'register')\<close> after its delay, and the rest
         of \<open>handleRegister\<close> up to the next \<open>await\<close>\<close>
  | RegisterSucceeded
      \<comment> \<open>script.js: \<open>handleRegister\<close> after \<open>await this.delay(2000)\<close>\<close>
  | ResetRegistration
      \<comment> \<open>script.js: the callback set by the \<open>finally\<close> block\<close>
  | MergedLoginCall jsobject
      \<comment> \<open>script-merged.js: \<open>handleLogin\<close> after \<open>await this.delay(1500)\<close>\<close>
  | MergedRegisterCall jsobject
      \<comment> \<open>script-merged.js: \<open>handleRegister\<close> after \<open>await this.delay(2000)\<close>\<close>
  | LogSuccess
      \<comment> \<open>script-merged.js: the \<open>console.log\<close> callback\<close>

datatype effect =
    SetButtonLoading bool
  | SetButtonSuccess
  | UpdateStatus string string
  | ShowSuccessModal string
  | ShowToast string string
  | Rejected js_error  \<comment> \<open>an exception leaves the handler: its promise rejects\<close>

record page =
  now :: nat  \<comment> \<open>milliseconds\<close>
  timers :: "(nat \<times> task) list"  \<comment> \<open>pending \<open>setTimeout\<close> callbacks with their due times\<close>
  registrationInProgress :: bool
  slots :: document
  effects :: "effect list"

definition set_timeout :: "nat \<Rightarrow> task \<Rightarrow> page \<Rightarrow> page" where
  "set_timeout ms t pg = pg\<lparr>timers := timers pg @ [(now pg + ms, t)]\<rparr>"

definition emit :: "effect list \<Rightarrow> page \<Rightarrow> page" where
  "emit es pg = pg\<lparr>effects := effects pg @ es\<rparr>"

subsection \<open>Registration in script.js\<close>

definition register_finally :: "page \<Rightarrow> page" where
  \<comment> \<open>\<open>finally { setTimeout(() => { this.registrationInProgress = false; }, 1000); }\<close>\<close>
  "register_finally pg = set_timeout 1000 ResetRegistration pg"

definition register_catch :: "js_error \<Rightarrow> page \<Rightarrow> page" where
  \<comment> \<open>\<open>catch (error) { this.handleAuthError(error, submitBtn); ... }\<close>: \<open>submitBtn\<close> is a
     \<open>const\<close> of the \<open>try\<close> block and the sources define no other, so evaluating the
     argument throws a ReferenceError before \<open>handleAuthError\<close> is called; the
     \<open>finally\<close> block runs and the handler's promise rejects\<close>
  "register_catch error pg = register_finally (emit [Rejected ReferenceError] pg)"

definition handleRegister :: "jsobject \<Rightarrow> nat \<Rightarrow> jsstring \<Rightarrow> page \<Rightarrow> page" where
  \<comment> \<open>script.js:374-420 up to the first \<open>await\<close>; \<open>jitter\<close> and \<open>uuid\<close> are what
     \<open>Math.random\<close> and \<open>crypto.randomUUID\<close> give \<open>authenticateUser\<close>\<close>
  "handleRegister userData jitter uuid pg =
     (if registrationInProgress pg then pg
      else
        let pg = pg\<lparr>registrationInProgress := True\<rparr> in
        case validateRegisterForm userData (slots pg) of
          Inl error \<Rightarrow> register_catch error pg
        | Inr (valid, doc) \<Rightarrow>
            let pg = pg\<lparr>slots := doc\<rparr> in
            if \<not> valid then register_finally pg
            else set_timeout (auth_delay ''register'' jitter) (AuthenticateRegister userData uuid)
                   (emit [SetButtonLoading True,
                          UpdateStatus ''register-status'' ''Creating account...''] pg))"

subsection \<open>Login and registration in script-merged.js\<close>

definition handleLogin_merged :: "jsobject \<Rightarrow> page \<Rightarrow> page" where
  \<comment> \<open>script-merged.js:116-150 up to the \<open>await\<close>\<close>
  "handleLogin_merged credentials pg =
     (case validateLoginForm_merged credentials (slots pg) of
        Inl error \<Rightarrow> emit [Rejected error] pg
      | Inr (valid, doc) \<Rightarrow>
          let pg = pg\<lparr>slots := doc\<rparr> in
          if \<not> valid then pg
          else set_timeout 1500 (MergedLoginCall credentials) (emit [SetButtonLoading True] pg))"

definition handleRegister_merged :: "jsobject \<Rightarrow> page \<Rightarrow> page" where
  \<comment> \<open>script-merged.js:152-182 up to the \<open>await\<close>\<close>
  "handleRegister_merged userData pg =
     (case validateRegisterForm_merged userData (slots pg) of
        Inl error \<Rightarrow> emit [Rejected error] pg
      | Inr (valid, doc) \<Rightarrow>
          let pg = pg\<lparr>slots := doc\<rparr> in
          if \<not> valid then pg
          else set_timeout 2000 (MergedRegisterCall userData) (emit [SetButtonLoading True] pg))"

subsection \<open>The event loop\<close>

fun run_task :: "task \<Rightarrow> page \<Rightarrow> page" where
  "run_task (AuthenticateRegister userData uuid) pg =
     (case authenticateUser userData ''register'' uuid of
        Inl error \<Rightarrow> register_catch error pg
      | Inr result \<Rightarrow>
          if success result
          then set_timeout 2000 RegisterSucceeded
                 (emit [SetButtonSuccess, ShowSuccessModal ''Welcome to AlgoRhythm!'',
                        UpdateStatus ''register-status'' ''Account created successfully''] pg)
          else register_finally pg)"
| "run_task RegisterSucceeded pg = register_finally pg"
| "run_task ResetRegistration pg = pg\<lparr>registrationInProgress := False\<rparr>"
| "run_task (MergedLoginCall credentials) pg =
     (case login_call_merged credentials of
        Inl error \<Rightarrow> emit [SetButtonLoading False, ShowToast (error_message error) ''error''] pg
      | Inr _ \<Rightarrow>
          set_timeout 2000 LogSuccess
            (emit [SetButtonSuccess, ShowSuccessModal ''Welcome back to AlgoRhythm!''] pg))"
| "run_task (MergedRegisterCall userData) pg =
     (case register_call_merged userData of
        Inl error \<Rightarrow>
          emit [SetButtonLoading False,
                ShowToast ''Registration failed. Please try again.'' ''error''] pg
      | Inr _ \<Rightarrow>
          set_timeout 2000 LogSuccess
            (emit [SetButtonSuccess, ShowSuccessModal ''Welcome to AlgoRhythm!''] pg))"
| "run_task LogSuccess pg = pg"

definition due :: "page \<Rightarrow> nat \<times> task \<Rightarrow> bool" where
  "due pg t = (fst t \<le> now pg)"

definition tick :: "page \<Rightarrow> page" where
  \<comment> \<open>one millisecond passes; the callbacks whose time has come run in the order in which
     they were set (every delay in the sources is at least a second, so none of them sets
     a callback for the same millisecond)\<close>
  "tick pg =
     (let pg = pg\<lparr>now := now pg + 1\<rparr>;
          ready = filter (due pg) (timers pg);
          pg = pg\<lparr>timers := filter (\<lambda>t. \<not> due pg t) (timers pg)\<rparr>
      in foldl (\<lambda>pg t. run_task (snd t) pg) pg ready)"

definition elapse :: "nat \<Rightarrow> page \<Rightarrow> page" where
  "elapse ms pg = (tick ^^ ms) pg"

datatype event =
    SubmitRegister jsobject nat jsstring  \<comment> \<open>a submit of the registration form\<close>
  | Wait nat  \<comment> \<open>milliseconds without a submit\<close>

fun step :: "event \<Rightarrow> page \<Rightarrow> page" where
  "step (SubmitRegister userData jitter uuid) pg = handleRegister userData jitter uuid pg"
| "step (Wait ms) pg = elapse ms pg"

definition run :: "event list \<Rightarrow> page \<Rightarrow> page" where
  "run evs pg = foldl (\<lambda>pg e. step e pg) pg evs"

fun waited :: "event list \<Rightarrow> nat" where
  \<comment> \<open>the time a sequence of events takes\<close>
  "waited [] = 0"
| "waited (SubmitRegister userData jitter uuid # evs) = waited evs"
| "waited (Wait ms # evs) = ms + waited evs"

definition register_settles :: "jsobject \<Rightarrow> nat \<Rightarrow> nat" where
  \<comment> \<open>milliseconds from an accepted submit to the \<open>finally\<close> block of \<open>handleRegister\<close>:
     none when validation fails, the delay of the mocked call when it throws, two more
     seconds when it succeeds\<close>
  "register_settles userData jitter =
     (if \<not> (name_check userData \<and> email_check userData \<and> password_check userData
             \<and> match_check userData) then 0
      else if get_prop userData ''email'' = Str (js ''test@error.com'')
            \<or> get_prop userData ''email'' = Str (js ''test@network.com'')
      then auth_delay ''register'' jitter
      else auth_delay ''register'' jitter + 2000)"

definition guarded_for :: "nat \<Rightarrow> page \<Rightarrow> bool" where
  \<comment> \<open>left to itself, the page has the guard set for its next \<open>ms\<close> milliseconds and
     clear from then on\<close>
  "guarded_for ms pg = (\<forall>n. registrationInProgress (elapse n pg) = (n < ms))"

definition login_bad_email :: jsobject where
  \<comment> \<open>a login with an email without a dot and a password\<close>
  "login_bad_email = [''email'' \<mapsto> js ''a@b'', ''password'' \<mapsto> js ''secret'']"

definition login_network :: jsobject where
  "login_network = [''email'' \<mapsto> js ''test@network.com'', ''password'' \<mapsto> js ''secret'']"

definition register_error :: jsobject where
  "register_error =
     [''name'' \<mapsto> js ''Jo'', ''email'' \<mapsto> js ''test@error.com'',
      ''password'' \<mapsto> js ''Abcdefg1'', ''confirmPassword'' \<mapsto> js ''Abcdefg1'']"

definition idle :: page where
  \<comment> \<open>a page just loaded: no timer, no guard, the error slots empty\<close>
  "idle = \<lparr>now = 0, timers = [], registrationInProgress = False, slots = all_clear, effects = []\<rparr>"

definition good_user :: jsobject where
  "good_user =
     [''name'' \<mapsto> js ''Jo'', ''email'' \<mapsto> js ''user@example.com'',
      ''password'' \<mapsto> js ''Abcdefg1'', ''confirmPassword'' \<mapsto> js ''Abcdefg1'']"

definition settled :: "page \<Rightarrow> bool" where
  \<comment> \<open>what holds of the page after any history: while the guard is set, the one pending
     timer belongs to the registration in flight; while it is clear, no timer is pending\<close>
  "settled pg =
     (if registrationInProgress pg
      then \<exists>d k. timers pg = [(now pg + d, k)] \<and> 0 < d
             \<and> (k = RegisterSucceeded \<or> k = ResetRegistration
                  \<or> (\<exists>u uuid. k = AuthenticateRegister u uuid))
      else timers pg = [])"

section \<open>The matcher decides the pattern\<close>

lemma nullable_iff: "nullable r \<longleftrightarrow> [] \<in> lang r"
  by (induction r) (auto simp: conc_def intro: star.intros)

lemma star_cons_iff:
  "c # w \<in> star L \<longleftrightarrow> (\<exists>u v. w = u @ v \<and> c # u \<in> L \<and> v \<in> star L)"
proof
  assume "c # w \<in> star L"
  then show "\<exists>u v. w = u @ v \<and> c # u \<in> L \<and> v \<in> star L"
  proof (induction "c # w" arbitrary: w rule: star.induct)
    case (star_app u v)
    then show ?case
      by (cases u) auto
  qed
next
  assume "\<exists>u v. w = u @ v \<and> c # u \<in> L \<and> v \<in> star L"
  then obtain u v where "w = u @ v" "c # u \<in> L" "v \<in> star L" by blast
  then show "c # w \<in> star L"
    using star.star_app [of "c # u" L v] by simp
qed

lemma lang_deriv: "w \<in> lang (deriv c r) \<longleftrightarrow> c # w \<in> lang r"
proof (induction r arbitrary: w)
  case (RSeq r s)
  show ?case
  proof
    assume "w \<in> lang (deriv c (RSeq r s))"
    then show "c # w \<in> lang (RSeq r s)"
      using RSeq
      by (auto simp: conc_def nullable_iff Cons_eq_append_conv split: if_splits)
  next
    assume "c # w \<in> lang (RSeq r s)"
    then obtain u v where uv: "c # w = u @ v" "u \<in> lang r" "v \<in> lang s"
      by (auto simp: conc_def)
    show "w \<in> lang (deriv c (RSeq r s))"
    proof (cases u)
      case Nil
      with uv RSeq show ?thesis by (auto simp: nullable_iff)
    next
      case (Cons a u')
      with uv RSeq have "u' \<in> lang (deriv c r)" "w = u' @ v" by auto
      with uv show ?thesis by (auto simp: conc_def)
    qed
  qed
next
  case (RStar r)
  then show ?case
    by (auto simp: star_cons_iff conc_def)
qed auto

lemma matches_iff_lang: "matches r s \<longleftrightarrow> s \<in> lang r"
  by (induction s arbitrary: r) (simp_all add: nullable_iff lang_deriv)

lemma star_class: "star {[c] | c. P c} = {w. list_all P w}"
proof (intro set_eqI iffI)
  fix w assume "w \<in> star {[c] | c. P c}"
  then show "w \<in> {w. list_all P w}"
    by (induction rule: star.induct) auto
next
  fix w assume "w \<in> {w. list_all P w}"
  then have "list_all P w" by simp
  then show "w \<in> star {[c] | c. P c}"
  proof (induction w)
    case Nil
    show ?case by (rule star.star_nil)
  next
    case (Cons a w)
    then have "[a] \<in> {[c] | c. P c}" "w \<in> star {[c] | c. P c}" by auto
    then have "[a] @ w \<in> star {[c] | c. P c}" by (rule star.star_app)
    then show ?case by simp
  qed
qed

lemma lang_plus_class: "lang (RPlus (RClass P)) = {w. w \<noteq> [] \<and> list_all P w}"
proof (intro set_eqI iffI)
  fix w assume "w \<in> lang (RPlus (RClass P))"
  then show "w \<in> {w. w \<noteq> [] \<and> list_all P w}"
    by (auto simp: RPlus_def conc_def star_class)
next
  fix w assume "w \<in> {w. w \<noteq> [] \<and> list_all P w}"
  then obtain a v where "w = [a] @ v" "P a" "list_all P v"
    by (cases w) auto
  then show "w \<in> lang (RPlus (RClass P))"
    unfolding RPlus_def lang.simps conc_def star_class by blast
qed

lemma lang_char: "lang (RChar ch) = {[of_char ch]}"
  by (auto simp: RChar_def)

lemma isValidEmail_iff_pattern: "isValidEmail (Str s) \<longleftrightarrow> email_pattern s"
  unfolding isValidEmail_def ToString_def matches_iff_lang emailRegex_def email_pattern_def
  by (simp add: lang_plus_class lang_char conc_def) blast

lemmas code_unit_defs =
  js_def is_lower_def is_upper_def is_digit_def is_symbol_def is_line_terminator_def
  is_whitespace_def

lemmas email_defs =
  isValidEmail_def ToString_def emailRegex_def RPlus_def RChar_def not_space_or_at_def

text \<open>
  Claim C7. For every string \<open>s\<close>, \<open>isValidEmail(s)\<close> is true exactly when \<open>s\<close> matches
  the anchored pattern \<open>^[^\s@]+@[^\s@]+\.[^\s@]+$\<close>, that is, when \<open>s\<close> is in the
  language of the pattern: a non-empty run of code units that are neither whitespace nor
  \<open>@\<close>, then \<open>@\<close>, such a run, a dot, such a run, and nothing else. It accepts
  \<open>a@b.co\<close> and rejects \<open>a@b\<close>, \<open>a b@c.com\<close> and the empty string.
\<close>

theorem isValidEmail_matches_pattern:
  "isValidEmail (Str s) = (s \<in> lang emailRegex)
   \<and> isValidEmail (Str s) = email_pattern s
   \<and> isValidEmail (Str (js ''a@b.co''))
   \<and> \<not> isValidEmail (Str (js ''a@b''))
   \<and> \<not> isValidEmail (Str (js ''a b@c.com''))
   \<and> \<not> isValidEmail (Str (js []))"
proof -
  have "isValidEmail (Str (js ''a@b.co''))"
    by (simp add: email_defs code_unit_defs)
  moreover have "\<not> isValidEmail (Str (js ''a@b''))"
    by (simp add: email_defs code_unit_defs)
  moreover have "\<not> isValidEmail (Str (js ''a b@c.com''))"
    by (simp add: email_defs code_unit_defs)
  moreover have "\<not> isValidEmail (Str (js []))"
    by (simp add: email_defs code_unit_defs)
  moreover have "isValidEmail (Str s) = (s \<in> lang emailRegex)"
    by (simp add: isValidEmail_def ToString_def matches_iff_lang)
  ultimately show ?thesis
    by (simp add: isValidEmail_iff_pattern)
qed

section \<open>Patterns without anchors\<close>

lemma search_here: "here s \<Longrightarrow> search here s"
  by (cases s) auto

lemma search_iff: "search here s \<longleftrightarrow> (\<exists>u t. s = u @ t \<and> here t)"
proof (induction s)
  case Nil
  show ?case by simp
next
  case (Cons c cs)
  show ?case
  proof
    assume "search here (c # cs)"
    then consider "here (c # cs)" | "search here cs" by auto
    then show "\<exists>u t. c # cs = u @ t \<and> here t"
    proof cases
      case 1
      then have "c # cs = [] @ (c # cs) \<and> here (c # cs)" by simp
      then show ?thesis by blast
    next
      case 2
      with Cons obtain u t where "cs = u @ t" "here t" by blast
      then have "c # cs = (c # u) @ t \<and> here t" by simp
      then show ?thesis by blast
    qed
  next
    assume "\<exists>u t. c # cs = u @ t \<and> here t"
    then obtain u t where ut: "c # cs = u @ t" "here t" by blast
    show "search here (c # cs)"
    proof (cases u)
      case Nil
      with ut have "here (c # cs)" by simp
      then show ?thesis by (rule search_here)
    next
      case (Cons a u')
      with ut have "cs = u' @ t" by simp
      with ut Cons.IH show ?thesis by auto
    qed
  qed
qed

lemma search_class: "search (class_here P) s \<longleftrightarrow> list_ex P s"
  by (induction s) (auto simp: class_here_def)

lemma dot_star_then_no_terminator:
  "list_all (\<lambda>c. \<not> is_line_terminator c) s \<Longrightarrow> dot_star_then P s \<longleftrightarrow> list_ex P s"
  by (induction s) auto

lemma dot_star_then_ex: "dot_star_then P s \<Longrightarrow> list_ex P s"
  by (induction s) auto

lemma class_not_terminator:
  "is_lower c \<Longrightarrow> \<not> is_line_terminator c"
  "is_upper c \<Longrightarrow> \<not> is_line_terminator c"
  "is_digit c \<Longrightarrow> \<not> is_line_terminator c"
  by (auto simp: is_lower_def is_upper_def is_digit_def is_line_terminator_def)

lemma dot_star_then_first_line:
  assumes "\<And>c. P c \<Longrightarrow> \<not> is_line_terminator c"
  shows "dot_star_then P t \<longleftrightarrow> list_ex P (takeWhile (\<lambda>c. \<not> is_line_terminator c) t)"
  using assms by (induction t) auto

lemma search_complexity_iff:
  "search complexity_here s \<longleftrightarrow>
     (\<exists>u t. s = u @ t
        \<and> list_ex is_lower (takeWhile (\<lambda>c. \<not> is_line_terminator c) t)
        \<and> list_ex is_upper (takeWhile (\<lambda>c. \<not> is_line_terminator c) t)
        \<and> list_ex is_digit (takeWhile (\<lambda>c. \<not> is_line_terminator c) t))"
  by (simp add: search_iff complexity_here_def dot_star_then_first_line class_not_terminator)

lemma search_complexity_no_terminator:
  assumes "list_all (\<lambda>c. \<not> is_line_terminator c) s"
  shows "search complexity_here s
           \<longleftrightarrow> list_ex is_lower s \<and> list_ex is_upper s \<and> list_ex is_digit s"
proof
  assume "search complexity_here s"
  then obtain u t where ut: "s = u @ t" "complexity_here t"
    by (auto simp: search_iff)
  then have "list_ex is_lower t \<and> list_ex is_upper t \<and> list_ex is_digit t"
    by (auto simp: complexity_here_def dest: dot_star_then_ex)
  with ut show "list_ex is_lower s \<and> list_ex is_upper s \<and> list_ex is_digit s"
    by (auto simp: list_ex_iff)
next
  assume "list_ex is_lower s \<and> list_ex is_upper s \<and> list_ex is_digit s"
  with assms have "complexity_here s"
    by (simp add: complexity_here_def dot_star_then_no_terminator)
  then show "search complexity_here s" by (rule search_here)
qed

section \<open>The password policy\<close>

text \<open>
  Claim C1, as amended. For every password \<open>s\<close> without a line terminator,
  \<open>validatePassword\<close> of script.js (either AuthManager) answers "required" when \<open>s\<close> is
  empty, the minimum length message when \<open>s\<close> has fewer than 8 code units, the
  complexity message when \<open>s\<close> does not hold a lower-case letter, an upper-case letter
  and a digit, and valid otherwise. \<open>validatePassword\<close> of script-merged.js has the
  first two checks only: it answers valid for every \<open>s\<close> of 8 code units or more.
\<close>

theorem validatePassword_policy:
  "(list_all (\<lambda>c. \<not> is_line_terminator c) s \<longrightarrow>
      validatePassword (Str s) =
        Inr (if s = [] then Invalid ''Password is required''
             else if length s < 8 then Invalid ''Password must be at least 8 characters long''
             else if \<not> (list_ex is_lower s \<and> list_ex is_upper s \<and> list_ex is_digit s)
             then Invalid ''Password must contain uppercase, lowercase, and number''
             else Valid)
      \<and> validatePassword_v2 (Str s) =
        Inr (if s = [] then Invalid ''Password is required''
             else if length s < 8 then Invalid ''Password must be at least 8 characters long''
             else if \<not> (list_ex is_lower s \<and> list_ex is_upper s \<and> list_ex is_digit s)
             then Invalid
               ''Password must contain at least one uppercase letter, one lowercase letter, and one number''
             else Valid))
   \<and> validatePassword_merged (Str s) =
        Inr (if s = [] then Invalid ''Password is required''
             else if length s < 8 then Invalid ''Password must be at least 8 characters long''
             else Valid)"
proof -
  have "validatePassword_merged (Str s) =
        Inr (if s = [] then Invalid ''Password is required''
             else if length s < 8 then Invalid ''Password must be at least 8 characters long''
             else Valid)"
    by (simp add: validatePassword_merged_def truthy_def js_length_def)
  moreover have "validatePassword (Str s) =
        Inr (if s = [] then Invalid ''Password is required''
             else if length s < 8 then Invalid ''Password must be at least 8 characters long''
             else if \<not> (list_ex is_lower s \<and> list_ex is_upper s \<and> list_ex is_digit s)
             then Invalid ''Password must contain uppercase, lowercase, and number''
             else Valid)"
    if "list_all (\<lambda>c. \<not> is_line_terminator c) s"
    using search_complexity_no_terminator [OF that]
    by (simp add: validatePassword_def truthy_def js_length_def ToString_def)
  moreover have "validatePassword_v2 (Str s) =
        Inr (if s = [] then Invalid ''Password is required''
             else if length s < 8 then Invalid ''Password must be at least 8 characters long''
             else if \<not> (list_ex is_lower s \<and> list_ex is_upper s \<and> list_ex is_digit s)
             then Invalid
               ''Password must contain at least one uppercase letter, one lowercase letter, and one number''
             else Valid)"
    if "list_all (\<lambda>c. \<not> is_line_terminator c) s"
    using search_complexity_no_terminator [OF that]
    by (simp add: validatePassword_v2_def truthy_def js_length_def ToString_def)
  ultimately show ?thesis by blast
qed

theorem validatePassword_policy_witness:
  "validatePassword (Str (js ''Abcdefg1'')) = Inr Valid
   \<and> validatePassword (Str (js ''abcdefgh'')) =
       Inr (Invalid ''Password must contain uppercase, lowercase, and number'')
   \<and> validatePassword (Str (js ''short'')) =
       Inr (Invalid ''Password must be at least 8 characters long'')
   \<and> validatePassword_merged (Str (js ''short'')) =
       Inr (Invalid ''Password must be at least 8 characters long'')"
  using validatePassword_policy [of "js ''Abcdefg1''"] validatePassword_policy [of "js ''abcdefgh''"]
    validatePassword_policy [of "js ''short''"]
  by (simp add: code_unit_defs)

text \<open>
  The claim as stated fails on script-merged.js: \<open>abcdefgh\<close> has no upper-case letter and
  no digit, and its \<open>validatePassword\<close> answers valid.
\<close>

theorem validatePassword_merged_counterexample:
  "validatePassword_merged (Str (js ''abcdefgh'')) = Inr Valid
   \<and> \<not> list_ex is_upper (js ''abcdefgh'') \<and> \<not> list_ex is_digit (js ''abcdefgh'')"
  by (simp add: validatePassword_merged_def truthy_def js_length_def code_unit_defs)

text \<open>
  What the amended claim leaves open: in script.js each lookahead \<open>(?=.*[a-z])\<close> stops
  at a line terminator, so the three classes must stand in one line
  (\<open>search_complexity_iff\<close>). A password with a LINE SEPARATOR between its lower-case
  letters and the rest gets the complexity message although it holds all three.
\<close>

lemma validatePassword_line_separator:
  "validatePassword (Str (js ''abcdefg'' @ [0x2028] @ js ''A1'')) =
     Inr (Invalid ''Password must contain uppercase, lowercase, and number'')
   \<and> list_ex is_lower (js ''abcdefg'' @ [0x2028] @ js ''A1'')
   \<and> list_ex is_upper (js ''abcdefg'' @ [0x2028] @ js ''A1'')
   \<and> list_ex is_digit (js ''abcdefg'' @ [0x2028] @ js ''A1'')"
  by (simp add: validatePassword_def truthy_def js_length_def ToString_def complexity_here_def
      code_unit_defs)

section \<open>Password strength\<close>

lemma find_level_bands:
  "level (find_level n) =
     (if n \<le> 2 then ''weak'' else if n \<le> 4 then ''fair'' else if n \<le> 6 then ''good''
      else if n \<le> 8 then ''strong'' else ''weak'')"
  by (simp add: find_level_def levels_def)

lemma password_score_checks:
  "password_score s =
     of_bool (8 \<le> length s) + of_bool (12 \<le> length s) + of_bool (list_ex is_lower s)
     + of_bool (list_ex is_upper s) + of_bool (list_ex is_digit s) + of_bool (list_ex is_symbol s)"
  by (simp add: password_score_def search_class)

lemma password_score_rich_checks:
  "password_score_rich s =
     password_score s + of_bool (\<not> search repeat_here s) + of_bool (\<not> search sequential_here s)"
  by (simp add: password_score_rich_def password_score_def)

lemma repeat_here_iff:
  "repeat_here t \<longleftrightarrow> (\<exists>a v. t = a # a # a # v \<and> \<not> is_line_terminator a)"
  by (auto simp: repeat_here_def split: list.splits)

lemma search_repeat_iff:
  "search repeat_here s \<longleftrightarrow> (\<exists>u c v. s = u @ [c, c, c] @ v \<and> \<not> is_line_terminator c)"
  by (simp add: search_iff repeat_here_iff) blast

lemma search_repeat_snoc:
  assumes "c \<notin> set s"
  shows "search repeat_here (s @ [c]) = search repeat_here s"
proof
  assume "search repeat_here (s @ [c])"
  then obtain u x v where uxv: "s @ [c] = u @ [x, x, x] @ v" "\<not> is_line_terminator x"
    by (auto simp: search_repeat_iff)
  show "search repeat_here s"
  proof (cases v rule: rev_cases)
    case Nil
    with uxv have "s = u @ [x, x]" "c = x" by auto
    with assms show ?thesis by simp
  next
    case (snoc v' y)
    with uxv have "s = u @ [x, x, x] @ v'" by auto
    with uxv show ?thesis by (auto simp: search_repeat_iff)
  qed
next
  assume "search repeat_here s"
  then obtain u x v where "s = u @ [x, x, x] @ v" "\<not> is_line_terminator x"
    by (auto simp: search_repeat_iff)
  then have "s @ [c] = u @ [x, x, x] @ (v @ [c]) \<and> \<not> is_line_terminator x" by simp
  then show "search repeat_here (s @ [c])"
    unfolding search_repeat_iff by blast
qed

lemma password_score_le: "password_score s \<le> 6"
  by (simp add: password_score_checks of_bool_def)

lemma password_score_snoc: "password_score s \<le> password_score (s @ [c])"
  by (simp add: password_score_checks of_bool_def)

lemma fresh_class_not_member:
  "list_all (\<lambda>d. class_of d \<noteq> class_of c) s \<Longrightarrow> c \<notin> set s"
  by (auto simp: list_all_iff)

lemma class_disjoint:
  "is_lower c \<Longrightarrow> \<not> is_upper c" "is_lower c \<Longrightarrow> \<not> is_digit c" "is_upper c \<Longrightarrow> \<not> is_digit c"
  by (auto simp: is_lower_def is_upper_def is_digit_def word_le_nat_alt)

lemma class_of_iff:
  "class_of c = LowerCase \<longleftrightarrow> is_lower c"
  "class_of c = UpperCase \<longleftrightarrow> is_upper c"
  "class_of c = Digit \<longleftrightarrow> is_digit c"
  "class_of c = Symbol \<longleftrightarrow> is_symbol c"
  using class_disjoint [of c] by (auto simp: class_of_def is_symbol_def)

lemma fresh_class_absent:
  assumes "list_all (\<lambda>d. class_of d \<noteq> class_of c) s"
  shows "is_lower c \<Longrightarrow> \<not> list_ex is_lower s"
    and "is_upper c \<Longrightarrow> \<not> list_ex is_upper s"
    and "is_digit c \<Longrightarrow> \<not> list_ex is_digit s"
    and "is_symbol c \<Longrightarrow> \<not> list_ex is_symbol s"
  using assms class_of_iff [symmetric] by (auto simp: list_all_iff list_ex_iff)

lemma password_score_fresh_class:
  assumes "list_all (\<lambda>d. class_of d \<noteq> class_of c) s"
  shows "Suc (password_score s) \<le> password_score (s @ [c])"
proof -
  have "is_lower c \<or> is_upper c \<or> is_digit c \<or> is_symbol c"
    by (auto simp: is_symbol_def)
  with fresh_class_absent [OF assms] show ?thesis
    by (auto simp: password_score_checks of_bool_def)
qed

lemma find_level_mono:
  "a \<le> b \<Longrightarrow> b \<le> 8 \<Longrightarrow> band_rank (level (find_level a)) \<le> band_rank (level (find_level b))"
  by (simp add: find_level_bands band_rank_def)

text \<open>
  Claim C3. For every password \<open>s\<close> and every single character \<open>c\<close> (a code unit, as
  for the source's string operations) whose character class (lowercase, uppercase,
  digit, symbol) no code unit of \<open>s\<close> has, the strength band of
  \<open>s\<close> with \<open>c\<close> appended is at least the band of \<open>s\<close> in the order
  weak < fair < good < strong, in the six-check variant and in the eight-check variant.
\<close>

theorem strength_monotone:
  assumes "list_all (\<lambda>d. class_of d \<noteq> class_of c) s"
  shows "band_rank (level (calculatePasswordStrength s))
           \<le> band_rank (level (calculatePasswordStrength (s @ [c])))
       \<and> band_rank (level (calculatePasswordStrength_rich s))
           \<le> band_rank (level (calculatePasswordStrength_rich (s @ [c])))"
proof
  have "password_score (s @ [c]) \<le> 8"
    using password_score_le [of "s @ [c]"] by simp
  then show "band_rank (level (calculatePasswordStrength s))
           \<le> band_rank (level (calculatePasswordStrength (s @ [c])))"
    unfolding calculatePasswordStrength_def
    by (intro find_level_mono password_score_snoc)
next
  have rep: "search repeat_here (s @ [c]) = search repeat_here s"
    by (rule search_repeat_snoc) (rule fresh_class_not_member [OF assms])
  have up: "password_score_rich s \<le> password_score_rich (s @ [c])"
    using password_score_fresh_class [OF assms]
    by (simp add: password_score_rich_checks rep of_bool_def)
  have "password_score_rich (s @ [c]) \<le> 8"
    using password_score_le [of "s @ [c]"]
    by (simp add: password_score_rich_checks of_bool_def)
  with up show "band_rank (level (calculatePasswordStrength_rich s))
           \<le> band_rank (level (calculatePasswordStrength_rich (s @ [c])))"
    unfolding calculatePasswordStrength_rich_def
    by (intro find_level_mono)
qed

lemmas pattern_defs =
  class_here_def repeat_here_def sequential_here_def sequential_patterns_def ci_matches_def

theorem strength_monotone_witness:
  "band_rank (level (calculatePasswordStrength (js ''abcdefgh'')))
           \<le> band_rank (level (calculatePasswordStrength (js ''abcdefgh'' @ [of_char CHR ''1''])))
       \<and> band_rank (level (calculatePasswordStrength_rich (js ''ab'')))
           \<le> band_rank (level (calculatePasswordStrength_rich (js ''ab'' @ [of_char CHR ''C''])))"
proof -
  have 1: "list_all (\<lambda>d. class_of d \<noteq> class_of (of_char CHR ''1'')) (js ''abcdefgh'')"
    by (simp add: class_of_def code_unit_defs)
  have 2: "list_all (\<lambda>d. class_of d \<noteq> class_of (of_char CHR ''C'')) (js ''ab'')"
    by (simp add: class_of_def code_unit_defs)
  show ?thesis
    using strength_monotone [OF 1] strength_monotone [OF 2] by simp
qed

text \<open>
  Claim C2. \<open>calculatePasswordStrength\<close> adds one point for each of the six checks
  (length of 8 or more, length of 12 or more, a lower-case letter, an upper-case letter,
  a digit, a symbol) and looks the total up by first match: 0-2 weak, 3-4 fair, 5-6
  good, 7-8 strong, anything else weak. The richer variant adds its two pattern checks,
  and there the code leaves the claim: its check for repeated characters is
  \<open>(.)\1{2,}\<close>, and \<open>.\<close> matches no line terminator. The password of three LINE
  SEPARATOR code units is a run of three repeated characters; the checks as the claim
  lists them give it 2 points and the band weak, the code gives it 3 points and the
  band fair.
\<close>

theorem repeat_check_skips_line_terminators:
  "calculatePasswordStrength s = find_level (password_score s)
   \<and> password_score s =
       of_bool (8 \<le> length s) + of_bool (12 \<le> length s) + of_bool (list_ex is_lower s)
       + of_bool (list_ex is_upper s) + of_bool (list_ex is_digit s)
       + of_bool (list_ex is_symbol s)
   \<and> level (find_level n) =
       (if n \<le> 2 then ''weak'' else if n \<le> 4 then ''fair'' else if n \<le> 6 then ''good''
        else if n \<le> 8 then ''strong'' else ''weak'')
   \<and> calculatePasswordStrength_rich s = find_level (password_score_rich s)
   \<and> password_score_rich s =
       password_score s
       + of_bool (\<not> (\<exists>u c v. s = u @ [c, c, c] @ v \<and> \<not> is_line_terminator c))
       + of_bool (\<not> search sequential_here s)
   \<and> repeated_run [0x2028, 0x2028, 0x2028]
   \<and> score_as_claimed [0x2028, 0x2028, 0x2028] = 2
   \<and> level (find_level 2) = ''weak''
   \<and> password_score_rich [0x2028, 0x2028, 0x2028] = 3
   \<and> level (calculatePasswordStrength_rich [0x2028, 0x2028, 0x2028]) = ''fair''"
proof -
  have r: "repeated_run [0x2028, 0x2028, 0x2028]"
    unfolding repeated_run_def by (intro exI [of _ "[]"] exI [of _ "0x2028"]) simp
  have s: "password_score_rich [0x2028, 0x2028, 0x2028] = 3"
    by (simp add: password_score_rich_def pattern_defs code_unit_defs)
  have q: "\<not> search sequential_here [0x2028, 0x2028, 0x2028]"
    by (simp add: pattern_defs)
  from r q have c: "score_as_claimed [0x2028, 0x2028, 0x2028] = 2"
    by (simp add: score_as_claimed_def code_unit_defs)
  have g: "password_score_rich s =
       password_score s
       + of_bool (\<not> (\<exists>u c v. s = u @ [c, c, c] @ v \<and> \<not> is_line_terminator c))
       + of_bool (\<not> search sequential_here s)"
    unfolding password_score_rich_checks search_repeat_iff ..
  from r s c show ?thesis
    unfolding g [symmetric]
    by (simp add: calculatePasswordStrength_def calculatePasswordStrength_rich_def
        find_level_bands password_score_checks [symmetric])
qed

section \<open>Form validators and error slots\<close>

lemma report_slot:
  "snd (report failed slot msg st) i =
     (if i = slot then slot_after (\<not> failed) msg (snd st slot) else snd st i)"
  "fst (report failed slot msg st) = (fst st \<and> \<not> failed)"
  by (auto simp: report_def showFieldError_def clearFieldError_def slot_after_def
      split: prod.splits option.splits)

lemma report_merged_slot:
  "snd (report_merged failed slot msg st) i =
     (if i = slot then slot_after_merged (\<not> failed) msg (snd st slot) else snd st i)"
  "fst (report_merged failed slot msg st) = (fst st \<and> \<not> failed)"
  by (auto simp: report_merged_def showFieldError_merged_def clearFieldError_merged_def
      slot_after_merged_def split: prod.splits option.splits)

lemma validatePassword_total: "\<exists>v. validatePassword p = Inr v"
  by (cases p) (auto simp: validatePassword_def truthy_def js_length_def)

lemma validatePassword_merged_total: "\<exists>v. validatePassword_merged p = Inr v"
  by (cases p) (auto simp: validatePassword_merged_def truthy_def js_length_def)

lemma name_missing:
  "or_else (\<not> truthy n) (map_sum id (\<lambda>t. length t < 2) (js_trim n)) =
     Inr (\<not> (case n of Undefined \<Rightarrow> False | Str x \<Rightarrow> 2 \<le> length (js_trim_string x)))"
  by (cases n) (auto simp: or_else_def truthy_def js_trim_def js_trim_string_def)

lemma password_missing:
  "or_else (\<not> truthy p) (map_sum id (\<lambda>n. n < 1) (js_length p)) = Inr (\<not> truthy p)"
  by (cases p) (auto simp: or_else_def truthy_def js_length_def)

lemma validateLoginForm_result:
  "validateLoginForm c doc =
     Inr (report (\<not> truthy (get_prop c ''password'')) ''password-error'' ''Password is required''
           (report (\<not> isValidEmail (get_prop c ''email'')) ''email-error''
              ''Please enter a valid email address'' (True, doc)))"
  unfolding validateLoginForm_def Let_def password_missing by simp

lemma validateRegisterForm_result:
  "validateRegisterForm u doc =
     Inr (report (\<not> match_check u) ''confirm-password-error'' ''Passwords do not match''
           (report (\<not> password_check u) ''register-password-error'' (password_message u)
             (report (\<not> email_check u) ''register-email-error'' ''Please enter a valid email address''
               (report (\<not> name_check u) ''name-error''
                  ''Please enter your full name (at least 2 characters)'' (True, doc)))))"
proof -
  obtain v where v: "validatePassword (get_prop u ''password'') = Inr v"
    using validatePassword_total by blast
  have m: "failure_message v = password_message u" if "\<not> isValid v"
    using that v by (cases v) (simp_all add: failure_message_def password_message_def isValid_def)
  have p: "isValid v = password_check u"
    using v by (cases v) (simp_all add: password_check_def isValid_def)
  show ?thesis
  proof (cases "isValid v")
    case True
    then show ?thesis using v p
      unfolding validateRegisterForm_def Let_def name_missing
      by (simp add: name_check_def email_check_def match_check_def strict_neq_def report_def)
  next
    case False
    then show ?thesis using v p m
      unfolding validateRegisterForm_def Let_def name_missing
      by (simp add: name_check_def email_check_def match_check_def strict_neq_def)
  qed
qed

lemma validateRegisterForm_merged_result:
  "validateRegisterForm_merged u doc =
     Inr (report_merged (\<not> match_check u) ''confirm-password-error'' ''Passwords do not match''
           (report_merged (\<not> password_check_merged u) ''register-password-error''
              (password_message_merged u)
             (report_merged (\<not> email_check u) ''register-email-error''
                ''Please enter a valid email address''
               (report_merged (\<not> name_check u) ''name-error''
                  ''Please enter your full name (at least 2 characters)'' (True, doc)))))"
proof -
  obtain v where v: "validatePassword_merged (get_prop u ''password'') = Inr v"
    using validatePassword_merged_total by blast
  have m: "failure_message v = password_message_merged u" if "\<not> isValid v"
    using that v
    by (cases v) (simp_all add: failure_message_def password_message_merged_def isValid_def)
  have p: "isValid v = password_check_merged u"
    using v by (cases v) (simp_all add: password_check_merged_def isValid_def)
  show ?thesis
  proof (cases "isValid v")
    case True
    then show ?thesis using v p
      unfolding validateRegisterForm_merged_def Let_def name_missing
      by (simp add: name_check_def email_check_def match_check_def strict_neq_def report_merged_def)
  next
    case False
    then show ?thesis using v p m
      unfolding validateRegisterForm_merged_def Let_def name_missing
      by (simp add: name_check_def email_check_def match_check_def strict_neq_def)
  qed
qed

text \<open>
  Claim C6. For every \<open>userData\<close> and page, \<open>validateRegisterForm\<close> throws nothing,
  returns valid exactly when the four checks pass (trimmed name of 2 code units or more,
  valid email, password passing \<open>validatePassword\<close>, password equal to
  \<open>confirmPassword\<close>), and leaves each check's slot with that check's own outcome
  whatever the other three say: its message when the check fails, cleared when it passes.
  The same holds of script-merged.js with its own \<open>validatePassword\<close>.
\<close>

theorem validateRegisterForm_all_checks:
  "(\<exists>doc'. validateRegisterForm u doc =
            Inr (name_check u \<and> email_check u \<and> password_check u \<and> match_check u, doc')
     \<and> doc' ''name-error'' =
         slot_after (name_check u) ''Please enter your full name (at least 2 characters)''
           (doc ''name-error'')
     \<and> doc' ''register-email-error'' =
         slot_after (email_check u) ''Please enter a valid email address''
           (doc ''register-email-error'')
     \<and> doc' ''register-password-error'' =
         slot_after (password_check u) (password_message u) (doc ''register-password-error'')
     \<and> doc' ''confirm-password-error'' =
         slot_after (match_check u) ''Passwords do not match'' (doc ''confirm-password-error''))
   \<and> (\<exists>doc'. validateRegisterForm_merged u doc =
            Inr (name_check u \<and> email_check u \<and> password_check_merged u \<and> match_check u, doc')
     \<and> doc' ''name-error'' =
         slot_after_merged (name_check u) ''Please enter your full name (at least 2 characters)''
           (doc ''name-error'')
     \<and> doc' ''register-email-error'' =
         slot_after_merged (email_check u) ''Please enter a valid email address''
           (doc ''register-email-error'')
     \<and> doc' ''register-password-error'' =
         slot_after_merged (password_check_merged u) (password_message_merged u)
           (doc ''register-password-error'')
     \<and> doc' ''confirm-password-error'' =
         slot_after_merged (match_check u) ''Passwords do not match''
           (doc ''confirm-password-error''))"
  unfolding validateRegisterForm_result validateRegisterForm_merged_result
  by (simp add: prod_eq_iff report_slot report_merged_slot)

lemmas validator_defs =
  get_prop_def truthy_def js_length_def js_trim_def js_trim_string_def
  validatePassword_def validatePassword_merged_def

lemmas check_defs =
  name_check_def email_check_def password_check_def password_check_merged_def
  password_message_def password_message_merged_def match_check_def slot_after_def
  slot_after_merged_def

theorem validateRegisterForm_all_checks_witness:
  "\<exists>doc'. validateRegisterForm
      [''name'' \<mapsto> js ''J'', ''email'' \<mapsto> js ''a@b'', ''password'' \<mapsto> js ''short'',
       ''confirmPassword'' \<mapsto> js ''other''] all_clear = Inr (False, doc')
    \<and> doc' ''name-error'' = Some \<lparr>textContent = ''Please enter your full name (at least 2 characters)'', aria_live = Some ''polite''\<rparr>
    \<and> doc' ''register-email-error'' = Some \<lparr>textContent = ''Please enter a valid email address'', aria_live = Some ''polite''\<rparr>
    \<and> doc' ''register-password-error'' = Some \<lparr>textContent = ''Password must be at least 8 characters long'', aria_live = Some ''polite''\<rparr>
    \<and> doc' ''confirm-password-error'' = Some \<lparr>textContent = ''Passwords do not match'', aria_live = Some ''polite''\<rparr>"
  using validateRegisterForm_all_checks [of "[''name'' \<mapsto> js ''J'', ''email'' \<mapsto> js ''a@b'', ''password'' \<mapsto> js ''short'',
       ''confirmPassword'' \<mapsto> js ''other'']" all_clear]
  by (simp add: check_defs validator_defs email_defs code_unit_defs all_clear_def)

text \<open>
  Claim C8, as amended. For every credentials pair with a syntactically invalid email and
  a non-empty password, \<open>validateLoginForm\<close> returns invalid, shows the email error,
  writes no error to the password slot and clears it; a password slot that is absent or
  already clear is left as it was.
\<close>

theorem validateLoginForm_invalid_email:
  assumes "\<not> isValidEmail (get_prop c ''email'')" and "truthy (get_prop c ''password'')"
  shows "\<exists>doc'. validateLoginForm c doc = Inr (False, doc')
     \<and> doc' ''email-error'' =
         slot_after False ''Please enter a valid email address'' (doc ''email-error'')
     \<and> doc' ''password-error'' = slot_after True [] (doc ''password-error'')
     \<and> (doc ''password-error'' = None
            \<or> doc ''password-error'' = Some \<lparr>textContent = [], aria_live = None\<rparr>
          \<longrightarrow> doc' ''password-error'' = doc ''password-error'')"
  using assms unfolding validateLoginForm_result
  by (auto simp add: prod_eq_iff report_slot slot_after_def)

theorem validateLoginForm_invalid_email_witness:
  "\<exists>doc'. validateLoginForm [''email'' \<mapsto> js ''a@b'', ''password'' \<mapsto> js ''secret''] all_clear
            = Inr (False, doc')
     \<and> doc' ''email-error'' =
          Some \<lparr>textContent = ''Please enter a valid email address'', aria_live = Some ''polite''\<rparr>
     \<and> doc' ''password-error'' = all_clear ''password-error''"
proof -
  have 1: "\<not> isValidEmail (get_prop [''email'' \<mapsto> js ''a@b'', ''password'' \<mapsto> js ''secret''] ''email'')"
    by (simp add: get_prop_def email_defs code_unit_defs)
  have 2: "truthy (get_prop [''email'' \<mapsto> js ''a@b'', ''password'' \<mapsto> js ''secret''] ''password'')"
    by (simp add: get_prop_def truthy_def js_def)
  show ?thesis
    using validateLoginForm_invalid_email [OF 1 2, of all_clear]
    by (auto simp: slot_after_def all_clear_def)
qed

text \<open>
  The claim as stated fails where the password slot still shows an earlier error: the
  \<open>else\<close> branch of the password check calls \<open>clearFieldError\<close>, so the slot is
  emptied, not left untouched.
\<close>

theorem validateLoginForm_clears_password_slot_counterexample:
  "\<not> isValidEmail (get_prop login_bad_email ''email'')
   \<and> truthy (get_prop login_bad_email ''password'')
   \<and> stale_password_error ''password-error'' =
        Some \<lparr>textContent = ''Password is required'', aria_live = Some ''polite''\<rparr>
   \<and> validateLoginForm login_bad_email stale_password_error =
        Inr (False,
             stale_password_error
               (''email-error'' \<mapsto>
                  \<lparr>textContent = ''Please enter a valid email address'',
                     aria_live = Some ''polite''\<rparr>,
                ''password-error'' \<mapsto> \<lparr>textContent = [], aria_live = None\<rparr>))"
  by (simp add: validateLoginForm_result report_def showFieldError_def clearFieldError_def
      stale_password_error_def all_clear_def login_bad_email_def get_prop_def truthy_def
      email_defs code_unit_defs)

text \<open>
  Claim C9. Whatever the password field holds, \<open>validatePasswordMatch\<close> with an empty
  confirm field never leaves the mismatch error: afterwards the mismatch slot is empty
  (in script.js with \<open>aria-live\<close> removed, in script-merged.js with its text emptied),
  also when it showed the mismatch error before, and no other element has changed. At
  submit time \<open>validateRegisterForm\<close> flags an empty \<open>confirmPassword\<close> against a
  non-empty password as a mismatch: it returns invalid with the mismatch message in the
  slot.
\<close>

theorem validatePasswordMatch_empty_confirm:
  "validatePasswordMatch (Some p) (Some []) doc ''confirm-password-error'' =
     slot_after True [] (doc ''confirm-password-error'')
   \<and> validatePasswordMatch_merged (Some p) (Some []) doc ''confirm-password-error'' =
       slot_after_merged True [] (doc ''confirm-password-error'')
   \<and> (i \<noteq> ''confirm-password-error'' \<longrightarrow>
         validatePasswordMatch (Some p) (Some []) doc i = doc i
         \<and> validatePasswordMatch_merged (Some p) (Some []) doc i = doc i)
   \<and> (u ''password'' = Some p \<and> p \<noteq> [] \<and> u ''confirmPassword'' = Some []
        \<longrightarrow> (\<exists>doc'. validateRegisterForm u doc = Inr (False, doc')
              \<and> doc' ''confirm-password-error'' =
                  slot_after False ''Passwords do not match'' (doc ''confirm-password-error'')))"
proof -
  have 1: "validatePasswordMatch (Some p) (Some []) doc j =
      (if j = ''confirm-password-error'' then slot_after True [] (doc j) else doc j)" for j
    by (auto simp: validatePasswordMatch_def truthy_def clearFieldError_def slot_after_def
        split: option.splits)
  have 2: "validatePasswordMatch_merged (Some p) (Some []) doc j =
      (if j = ''confirm-password-error'' then slot_after_merged True [] (doc j) else doc j)" for j
    by (auto simp: validatePasswordMatch_merged_def truthy_def clearFieldError_merged_def
        slot_after_merged_def split: option.splits)
  have 3: "\<exists>doc'. validateRegisterForm u doc = Inr (False, doc')
              \<and> doc' ''confirm-password-error'' =
                  slot_after False ''Passwords do not match'' (doc ''confirm-password-error'')"
    if "u ''password'' = Some p \<and> p \<noteq> [] \<and> u ''confirmPassword'' = Some []"
    using that unfolding validateRegisterForm_result
    by (simp add: prod_eq_iff report_slot match_check_def get_prop_def)
  from 1 2 3 show ?thesis by simp
qed

theorem validatePasswordMatch_empty_confirm_witness:
  "stale_confirm_error ''confirm-password-error'' =
     Some \<lparr>textContent = ''Passwords do not match'', aria_live = Some ''polite''\<rparr>
   \<and> validatePasswordMatch (Some (js ''Abcdefg1'')) (Some []) stale_confirm_error
       ''confirm-password-error'' = Some \<lparr>textContent = [], aria_live = None\<rparr>
   \<and> validatePasswordMatch_merged (Some (js ''Abcdefg1'')) (Some []) stale_confirm_error
       ''confirm-password-error'' = Some \<lparr>textContent = [], aria_live = Some ''polite''\<rparr>
   \<and> validatePasswordMatch (Some (js ''Abcdefg1'')) (Some []) stale_confirm_error
       ''password-error'' = stale_confirm_error ''password-error''
   \<and> (\<exists>doc'. validateRegisterForm empty_confirm_user all_clear = Inr (False, doc')
        \<and> doc' ''confirm-password-error'' =
            Some \<lparr>textContent = ''Passwords do not match'', aria_live = Some ''polite''\<rparr>)"
proof -
  have u: "empty_confirm_user ''password'' = Some (js ''Abcdefg1'') \<and> js ''Abcdefg1'' \<noteq> []
      \<and> empty_confirm_user ''confirmPassword'' = Some []"
    by (simp add: empty_confirm_user_def js_def)
  have s: "stale_confirm_error ''confirm-password-error'' =
     Some \<lparr>textContent = ''Passwords do not match'', aria_live = Some ''polite''\<rparr>"
    by (simp add: stale_confirm_error_def)
  have c: "all_clear ''confirm-password-error'' = Some \<lparr>textContent = [], aria_live = None\<rparr>"
    by (simp add: all_clear_def)
  show ?thesis
    using validatePasswordMatch_empty_confirm [where p = "js ''Abcdefg1''"
        and doc = stale_confirm_error and i = "''password-error''" and u = Map.empty]
      validatePasswordMatch_empty_confirm [where p = "js ''Abcdefg1''" and doc = all_clear
        and i = "''password-error''" and u = empty_confirm_user]
    by (simp add: u s c slot_after_def slot_after_merged_def)
qed

text \<open>
  Claim C10. On a credentials object without the \<open>email\<close> field, \<open>isValidEmail\<close> is
  false (the pattern is tested against the text \<open>undefined\<close>) and \<open>validateLoginForm\<close>
  throws nothing: it returns invalid with the email error in its slot.
\<close>

theorem validateLoginForm_missing_email:
  assumes "c ''email'' = None"
  shows "\<not> isValidEmail (get_prop c ''email'')
     \<and> (\<exists>doc'. validateLoginForm c doc = Inr (False, doc')
          \<and> doc' ''email-error'' =
              slot_after False ''Please enter a valid email address'' (doc ''email-error''))"
proof -
  have "\<not> isValidEmail Undefined"
    by (simp add: email_defs code_unit_defs)
  with assms have "\<not> isValidEmail (get_prop c ''email'')"
    by (simp add: get_prop_def)
  then show ?thesis
    unfolding validateLoginForm_result
    by (simp add: prod_eq_iff report_slot)
qed

theorem validateLoginForm_missing_email_witness:
  "\<not> isValidEmail (get_prop [''password'' \<mapsto> js ''secret''] ''email'')
     \<and> (\<exists>doc'. validateLoginForm [''password'' \<mapsto> js ''secret''] all_clear = Inr (False, doc')
          \<and> doc' ''email-error'' =
              Some \<lparr>textContent = ''Please enter a valid email address'', aria_live = Some ''polite''\<rparr>)"
  using validateLoginForm_missing_email [of "[''password'' \<mapsto> js ''secret'']" all_clear]
  by (simp add: slot_after_def all_clear_def)

section \<open>Submission: the guard and the mocked call\<close>

lemma elapse_0: "elapse 0 pg = pg"
  by (simp add: elapse_def)

lemma elapse_Suc: "elapse (Suc n) pg = tick (elapse n pg)"
  by (simp add: elapse_def)

lemma elapse_add: "elapse (a + b) pg = elapse b (elapse a pg)"
  by (induction b) (simp_all add: elapse_0 elapse_Suc)

lemma tick_idle:
  assumes "\<forall>t \<in> set (timers pg). now pg + 1 < fst t"
  shows "tick pg = pg\<lparr>now := now pg + 1\<rparr>"
proof -
  have "filter (due (pg\<lparr>now := now pg + 1\<rparr>)) (timers pg) = []"
    using assms by (auto simp: filter_empty_conv due_def)
  moreover have "filter (\<lambda>t. \<not> due (pg\<lparr>now := now pg + 1\<rparr>) t) (timers pg) = timers pg"
    using assms by (auto simp: filter_id_conv due_def)
  ultimately show ?thesis
    by (simp add: tick_def Let_def)
qed

lemma elapse_idle:
  "\<forall>t \<in> set (timers pg). now pg + n < fst t \<Longrightarrow> elapse n pg = pg\<lparr>now := now pg + n\<rparr>"
proof (induction n)
  case 0
  show ?case by (simp add: elapse_0)
next
  case (Suc n)
  from Suc.prems have "\<forall>t \<in> set (timers pg). now pg + n < fst t"
    by (auto dest: bspec)
  then have "elapse n pg = pg\<lparr>now := now pg + n\<rparr>" by (rule Suc.IH)
  moreover have "tick (pg\<lparr>now := now pg + n\<rparr>) = pg\<lparr>now := now pg + n\<rparr>\<lparr>now := now pg + n + 1\<rparr>"
    using Suc.prems tick_idle [of "pg\<lparr>now := now pg + n\<rparr>"] by auto
  ultimately show ?case by (simp add: elapse_Suc)
qed

lemma tick_fire:
  assumes "timers pg = [(now pg + 1, k)]"
  shows "tick pg = run_task k (pg\<lparr>now := now pg + 1, timers := []\<rparr>)"
  using assms by (simp add: tick_def Let_def due_def)

lemma elapse_fire:
  assumes "timers pg = [(now pg + d, k)]" and "0 < d"
  shows "elapse d pg = run_task k (pg\<lparr>now := now pg + d, timers := []\<rparr>)"
proof -
  obtain m where d: "d = Suc m" using assms(2) by (cases d) auto
  have "elapse m pg = pg\<lparr>now := now pg + m\<rparr>"
    using assms(1) d by (intro elapse_idle) simp
  then show ?thesis
    using assms(1) d tick_fire [of "pg\<lparr>now := now pg + m\<rparr>" k]
    by (simp add: elapse_Suc)
qed

lemma guarded_stage:
  assumes "registrationInProgress pg" and "timers pg = [(now pg + d, k)]" and "0 < d"
    and "guarded_for T (run_task k (pg\<lparr>now := now pg + d, timers := []\<rparr>))"
  shows "guarded_for (d + T) pg"
proof -
  have fire: "elapse d pg = run_task k (pg\<lparr>now := now pg + d, timers := []\<rparr>)"
    using assms(2,3) by (rule elapse_fire)
  have early: "registrationInProgress (elapse n pg)" if "n < d" for n
  proof -
    have "elapse n pg = pg\<lparr>now := now pg + n\<rparr>"
      using assms(2) that by (intro elapse_idle) simp
    with assms(1) show ?thesis by simp
  qed
  have late: "registrationInProgress (elapse (d + m) pg) = (m < T)" for m
    using assms(4) by (simp add: elapse_add fire guarded_for_def)
  show ?thesis
    unfolding guarded_for_def
  proof
    fix n
    show "registrationInProgress (elapse n pg) = (n < d + T)"
    proof (cases "n < d")
      case True
      then show ?thesis by (simp add: early)
    next
      case False
      then have "n = d + (n - d)" by simp
      then show ?thesis using late [of "n - d"] by auto
    qed
  qed
qed

lemma guarded_for_before:
  "guarded_for T pg \<Longrightarrow> n < T \<Longrightarrow> registrationInProgress (elapse n pg)"
  unfolding guarded_for_def by blast

lemma guarded_for_after:
  "guarded_for T pg \<Longrightarrow> T \<le> n \<Longrightarrow> \<not> registrationInProgress (elapse n pg)"
  unfolding guarded_for_def by auto

lemma guarded_now:
  assumes "\<not> registrationInProgress pg" and "timers pg = []"
  shows "guarded_for 0 pg"
proof -
  have "elapse n pg = pg\<lparr>now := now pg + n\<rparr>" for n
    using assms(2) by (intro elapse_idle) simp
  with assms(1) show ?thesis
    by (simp add: guarded_for_def)
qed

lemma guarded_finally:
  assumes "registrationInProgress pg" and "timers pg = []"
  shows "guarded_for 1000 (register_finally pg)"
proof -
  have "guarded_for (1000 + 0) (register_finally pg)"
    using assms
    by (intro guarded_stage [where k = ResetRegistration] guarded_now)
       (simp_all add: register_finally_def set_timeout_def)
  then show ?thesis by simp
qed

lemma validateRegisterForm_valid:
  "\<exists>doc'. validateRegisterForm u doc =
     Inr (name_check u \<and> email_check u \<and> password_check u \<and> match_check u, doc')"
  unfolding validateRegisterForm_result
  by (simp add: prod_eq_iff report_slot)

lemma handleRegister_guarded:
  assumes "\<not> registrationInProgress pg" and "timers pg = []"
  shows "guarded_for (register_settles u jitter + 1000) (handleRegister u jitter uuid pg)"
proof -
  obtain doc' where v: "validateRegisterForm u (slots pg) =
      Inr (name_check u \<and> email_check u \<and> password_check u \<and> match_check u, doc')"
    using validateRegisterForm_valid by blast
  let ?valid = "name_check u \<and> email_check u \<and> password_check u \<and> match_check u"
  let ?sentinel = "get_prop u ''email'' = Str (js ''test@error.com'')
            \<or> get_prop u ''email'' = Str (js ''test@network.com'')"
  let ?D = "auth_delay ''register'' jitter"
  have D: "0 < ?D" by (simp add: auth_delay_def)
  show ?thesis
  proof (cases ?valid)
    case False
    have "handleRegister u jitter uuid pg = register_finally (pg\<lparr>registrationInProgress := True, slots := doc'\<rparr>)"
      using assms(1) v False by (simp add: handleRegister_def Let_def)
    moreover have "guarded_for 1000 (register_finally (pg\<lparr>registrationInProgress := True, slots := doc'\<rparr>))"
      using assms(2) by (intro guarded_finally) simp_all
    ultimately show ?thesis using False by (simp add: register_settles_def)
  next
    case True
    let ?pg1 = "emit [SetButtonLoading True, UpdateStatus ''register-status'' ''Creating account...'']
                  (pg\<lparr>registrationInProgress := True, slots := doc'\<rparr>)"
    have h: "handleRegister u jitter uuid pg = set_timeout ?D (AuthenticateRegister u uuid) ?pg1"
      using assms(1) v True by (simp add: handleRegister_def Let_def)
    show ?thesis
    proof (cases ?sentinel)
      case s: True
      have "guarded_for (?D + 1000) (set_timeout ?D (AuthenticateRegister u uuid) ?pg1)"
      proof (rule guarded_stage [where k = "AuthenticateRegister u uuid"])
        show "guarded_for 1000 (run_task (AuthenticateRegister u uuid)
              ((set_timeout ?D (AuthenticateRegister u uuid) ?pg1)
                \<lparr>now := now (set_timeout ?D (AuthenticateRegister u uuid) ?pg1) + ?D, timers := []\<rparr>))"
          using s assms(2)
          by (auto simp: authenticateUser_def register_catch_def intro!: guarded_finally)
             (simp_all add: emit_def set_timeout_def)
      qed (use assms(2) D in \<open>simp_all add: emit_def set_timeout_def\<close>)
      with h True s show ?thesis by (simp add: register_settles_def)
    next
      case s: False
      have "guarded_for (?D + (2000 + 1000)) (set_timeout ?D (AuthenticateRegister u uuid) ?pg1)"
      proof (rule guarded_stage [where k = "AuthenticateRegister u uuid"])
        let ?pg2 = "(set_timeout ?D (AuthenticateRegister u uuid) ?pg1)
                \<lparr>now := now (set_timeout ?D (AuthenticateRegister u uuid) ?pg1) + ?D, timers := []\<rparr>"
        let ?pg3 = "emit [SetButtonSuccess, ShowSuccessModal ''Welcome to AlgoRhythm!'',
                        UpdateStatus ''register-status'' ''Account created successfully''] ?pg2"
        have r: "run_task (AuthenticateRegister u uuid) ?pg2 = set_timeout 2000 RegisterSucceeded ?pg3"
          using s by (simp add: authenticateUser_def)
        have "guarded_for (2000 + 1000) (set_timeout 2000 RegisterSucceeded ?pg3)"
        proof (rule guarded_stage [where k = RegisterSucceeded])
          show "guarded_for 1000 (run_task RegisterSucceeded
              ((set_timeout 2000 RegisterSucceeded ?pg3)
                \<lparr>now := now (set_timeout 2000 RegisterSucceeded ?pg3) + 2000, timers := []\<rparr>))"
            by (auto intro!: guarded_finally) (simp_all add: emit_def set_timeout_def)
        qed (simp_all add: emit_def set_timeout_def)
        with r show "guarded_for (2000 + 1000) (run_task (AuthenticateRegister u uuid) ?pg2)"
          by simp
      qed (use assms(2) D in \<open>simp_all add: emit_def set_timeout_def\<close>)
      with h True s show ?thesis by (simp add: register_settles_def add.assoc)
    qed
  qed
qed

lemma handleRegister_ignored:
  "registrationInProgress pg \<Longrightarrow> handleRegister u jitter uuid pg = pg"
  by (simp add: handleRegister_def)

lemma run_snoc: "run (evs @ [e]) pg = step e (run evs pg)"
  by (simp add: run_def)

lemma waited_append: "waited (evs @ evs') = waited evs + waited evs'"
  by (induction evs rule: waited.induct) simp_all

lemma run_within_guard:
  assumes "guarded_for T pg"
  shows "waited evs < T \<Longrightarrow> run evs pg = elapse (waited evs) pg"
proof (induction evs rule: rev_induct)
  case Nil
  show ?case by (simp add: run_def elapse_0)
next
  case (snoc e evs)
  then have w: "waited evs < T" and ih: "run evs pg = elapse (waited evs) pg"
    by (simp_all add: waited_append)
  show ?case
  proof (cases e)
    case (SubmitRegister u jitter uuid)
    from assms w have "registrationInProgress (elapse (waited evs) pg)"
      by (rule guarded_for_before)
    with SubmitRegister ih show ?thesis
      by (simp add: run_snoc waited_append handleRegister_ignored)
  next
    case (Wait ms)
    with ih show ?thesis
      by (simp add: run_snoc waited_append elapse_add)
  qed
qed

lemma settled_handleRegister: "settled pg \<Longrightarrow> settled (handleRegister u jitter uuid pg)"
proof (cases "registrationInProgress pg")
  case True
  assume "settled pg"
  with True show ?thesis by (simp add: handleRegister_ignored)
next
  case False
  assume "settled pg"
  with False have t: "timers pg = []" by (simp add: settled_def)
  obtain valid doc' where "validateRegisterForm u (slots pg) = Inr (valid, doc')"
    using validateRegisterForm_valid by blast
  with False t show ?thesis
    by (auto simp: handleRegister_def Let_def settled_def register_finally_def set_timeout_def
        emit_def auth_delay_def)
qed

lemma page_simps:
  "registrationInProgress (set_timeout d k pg) = registrationInProgress pg"
  "timers (set_timeout d k pg) = timers pg @ [(now pg + d, k)]"
  "now (set_timeout d k pg) = now pg"
  "registrationInProgress (emit es pg) = registrationInProgress pg"
  "timers (emit es pg) = timers pg"
  "now (emit es pg) = now pg"
  "registrationInProgress (register_finally pg) = registrationInProgress pg"
  "timers (register_finally pg) = timers pg @ [(now pg + 1000, ResetRegistration)]"
  "now (register_finally pg) = now pg"
  "registrationInProgress (register_catch e pg) = registrationInProgress pg"
  "timers (register_catch e pg) = timers pg @ [(now pg + 1000, ResetRegistration)]"
  "now (register_catch e pg) = now pg"
  by (simp_all add: set_timeout_def emit_def register_finally_def register_catch_def)

lemma settled_run_task:
  assumes "registrationInProgress pg" and "timers pg = []"
    and "k = RegisterSucceeded \<or> k = ResetRegistration \<or> (\<exists>u uuid. k = AuthenticateRegister u uuid)"
  shows "settled (run_task k pg)"
proof (cases "k = ResetRegistration")
  case True
  with assms show ?thesis by (simp add: settled_def)
next
  case False
  have "registrationInProgress (run_task k pg)"
    using assms False by (auto simp: page_simps split: sum.splits if_splits)
  moreover have "\<exists>d k'. timers (run_task k pg) = [(now (run_task k pg) + d, k')] \<and> 0 < d
     \<and> (k' = RegisterSucceeded \<or> k' = ResetRegistration \<or> (\<exists>u uuid. k' = AuthenticateRegister u uuid))"
    using assms False by (auto simp: page_simps split: sum.splits)
  ultimately show ?thesis
    by (simp add: settled_def)
qed

lemma settled_tick:
  assumes "settled pg"
  shows "settled (tick pg)"
proof (cases "registrationInProgress pg")
  case False
  with assms have "timers pg = []" by (simp add: settled_def)
  then have "tick pg = pg\<lparr>now := now pg + 1\<rparr>" by (intro tick_idle) simp
  with assms False show ?thesis by (simp add: settled_def)
next
  case True
  with assms obtain d k where dk: "timers pg = [(now pg + d, k)]" "0 < d"
    "k = RegisterSucceeded \<or> k = ResetRegistration \<or> (\<exists>u uuid. k = AuthenticateRegister u uuid)"
    by (auto simp: settled_def)
  show ?thesis
  proof (cases "d = 1")
    case True
    with dk have "tick pg = run_task k (pg\<lparr>now := now pg + 1, timers := []\<rparr>)"
      by (intro tick_fire) simp
    moreover have "settled (run_task k (pg\<lparr>now := now pg + 1, timers := []\<rparr>))"
      using \<open>registrationInProgress pg\<close> dk(3) by (intro settled_run_task) simp_all
    ultimately show ?thesis by simp
  next
    case False
    with dk have "tick pg = pg\<lparr>now := now pg + 1\<rparr>" by (intro tick_idle) simp
    moreover from dk False have "now pg + d = (now pg + 1) + (d - 1) \<and> 0 < d - 1" by simp
    ultimately show ?thesis
      using \<open>registrationInProgress pg\<close> dk unfolding settled_def
      by (simp del: One_nat_def) (intro exI [of _ "d - 1"], simp)
  qed
qed

lemma settled_elapse: "settled pg \<Longrightarrow> settled (elapse n pg)"
  by (induction n) (simp_all add: elapse_0 elapse_Suc settled_tick)

lemma settled_run: "settled pg \<Longrightarrow> settled (run evs pg)"
proof (induction evs rule: rev_induct)
  case Nil
  then show ?case by (simp add: run_def)
next
  case (snoc e evs)
  then show ?case
    by (cases e) (simp_all add: run_snoc settled_handleRegister settled_elapse)
qed

lemma handleRegister_merged_no_guard:
  "handleRegister_merged u (pg\<lparr>registrationInProgress := b\<rparr>) =
     (handleRegister_merged u pg)\<lparr>registrationInProgress := b\<rparr>"
  by (simp add: handleRegister_merged_def emit_def set_timeout_def Let_def
      split: sum.splits prod.splits)

lemma handleRegister_merged_valid:
  assumes "name_check u \<and> email_check u \<and> password_check_merged u \<and> match_check u"
  shows "timers (handleRegister_merged u pg) = timers pg @ [(now pg + 2000, MergedRegisterCall u)]"
  using assms unfolding handleRegister_merged_def validateRegisterForm_merged_result
  by (simp add: report_merged_def set_timeout_def emit_def)

lemmas good_user_checks =
  good_user_def check_defs validator_defs email_defs code_unit_defs ToString_def
  complexity_here_def

lemma good_user_valid:
  "name_check good_user" "email_check good_user" "password_check good_user"
  "password_check_merged good_user" "match_check good_user"
  by (simp_all add: good_user_checks)

text \<open>
  Claim C4, as amended. In script.js, on a page reached from its load by any sequence of
  registration submits and waits: a submit that arrives while the guard is set changes
  nothing (no validation, no mocked call, no error shown); after an accepted submit the
  guard stays set until one second after \<open>handleRegister\<close> reaches its \<open>finally\<close> block
  and is clear from then on; and every sequence of submits and waits that fits into that
  time leaves the page as the waits alone would. Timers are taken to fire when due.
  \<open>handleRegister\<close> of script-merged.js has no guard: it neither reads nor writes one, and
  every valid submit sets the timer of its own simulated call.
\<close>

theorem registration_single_flight:
  assumes "timers pg0 = []" and "\<not> registrationInProgress pg0"
    and "pg = run history pg0" and "\<not> registrationInProgress pg"
  shows "(registrationInProgress pg' \<longrightarrow> handleRegister u' jitter' uuid' pg' = pg')
     \<and> guarded_for (register_settles u jitter + 1000) (handleRegister u jitter uuid pg)
     \<and> (waited evs < register_settles u jitter + 1000 \<longrightarrow>
          run evs (handleRegister u jitter uuid pg) =
            elapse (waited evs) (handleRegister u jitter uuid pg))
     \<and> handleRegister_merged u' (pg'\<lparr>registrationInProgress := b\<rparr>) =
          (handleRegister_merged u' pg')\<lparr>registrationInProgress := b\<rparr>
     \<and> (name_check u' \<and> email_check u' \<and> password_check_merged u' \<and> match_check u' \<longrightarrow>
          timers (handleRegister_merged u' pg') =
            timers pg' @ [(now pg' + 2000, MergedRegisterCall u')])"
proof -
  have "settled pg0"
    using assms(1,2) by (simp add: settled_def)
  then have "settled pg"
    unfolding assms(3) by (rule settled_run)
  with assms(4) have "timers pg = []"
    by (simp add: settled_def)
  with assms(4) have g: "guarded_for (register_settles u jitter + 1000) (handleRegister u jitter uuid pg)"
    by (rule handleRegister_guarded)
  show ?thesis
    using g run_within_guard [OF g, of evs]
    by (simp add: handleRegister_ignored handleRegister_merged_no_guard handleRegister_merged_valid)
qed

theorem registration_single_flight_witness:
  "run [SubmitRegister good_user 7 (js ''b''), Wait 100, SubmitRegister Map.empty 0 (js ''c''),
        Wait 5000, SubmitRegister good_user 999 (js ''d'')]
       (handleRegister good_user 500 (js ''a'') idle)
     = elapse 5100 (handleRegister good_user 500 (js ''a'') idle)
   \<and> registrationInProgress (elapse 5499 (handleRegister good_user 500 (js ''a'') idle))
   \<and> \<not> registrationInProgress (elapse 5500 (handleRegister good_user 500 (js ''a'') idle))
   \<and> \<not> registrationInProgress (elapse 60000 (handleRegister good_user 500 (js ''a'') idle))
   \<and> timers (handleRegister_merged good_user idle) = [(2000, MergedRegisterCall good_user)]"
proof -
  have s: "register_settles good_user 500 + 1000 = 5500"
    by (simp add: register_settles_def good_user_valid auth_delay_def)
       (simp add: good_user_def get_prop_def js_def)
  have i: "timers idle = []" "\<not> registrationInProgress idle" "idle = run [] idle" "now idle = 0"
    by (simp_all add: idle_def run_def)
  note t = registration_single_flight [OF i(1,2,3,2), where u = good_user and jitter = 500
      and uuid = "js ''a''" and u' = good_user and pg' = idle and b = False
      and evs = "[SubmitRegister good_user 7 (js ''b''), Wait 100,
        SubmitRegister Map.empty 0 (js ''c''), Wait 5000, SubmitRegister good_user 999 (js ''d'')]"]
  from t have g: "guarded_for 5500 (handleRegister good_user 500 (js ''a'') idle)"
    by (simp add: s)
  have "registrationInProgress (elapse 5499 (handleRegister good_user 500 (js ''a'') idle))"
    by (rule guarded_for_before [OF g]) simp
  moreover have "\<not> registrationInProgress (elapse 5500 (handleRegister good_user 500 (js ''a'') idle))"
    by (rule guarded_for_after [OF g]) simp
  moreover have "\<not> registrationInProgress (elapse 60000 (handleRegister good_user 500 (js ''a'') idle))"
    by (rule guarded_for_after [OF g]) simp
  moreover from t have "run [SubmitRegister good_user 7 (js ''b''), Wait 100, SubmitRegister Map.empty 0 (js ''c''),
        Wait 5000, SubmitRegister good_user 999 (js ''d'')]
       (handleRegister good_user 500 (js ''a'') idle)
     = elapse 5100 (handleRegister good_user 500 (js ''a'') idle)"
    by (simp add: s)
  moreover from t have "timers (handleRegister_merged good_user idle) = [(2000, MergedRegisterCall good_user)]"
    by (simp add: good_user_valid i(1,4))
  ultimately show ?thesis by (intro conjI)
qed

text \<open>
  The claim as stated fails on script-merged.js: two submits of a valid form, one right
  after the other, start two simulated calls.
\<close>

theorem handleRegister_merged_counterexample:
  "timers (handleRegister_merged good_user (handleRegister_merged good_user idle)) =
     [(2000, MergedRegisterCall good_user), (2000, MergedRegisterCall good_user)]
   \<and> effects (handleRegister_merged good_user (handleRegister_merged good_user idle)) =
     [SetButtonLoading True, SetButtonLoading True]"
  unfolding handleRegister_merged_def validateRegisterForm_merged_result
  by (simp add: good_user_valid report_merged_def set_timeout_def emit_def idle_def)

text \<open>
  Claim C5, as amended. \<open>authenticateUser\<close> of script.js, on the login and on the
  registration path alike, throws exactly for the two sentinel emails, "Invalid
  credentials" for \<open>test@error.com\<close> and "Network connection failed" for
  \<open>test@network.com\<close>, and otherwise returns success with a user record (the drawn id,
  the submitted email) and the token \<open>mock-jwt-token\<close>. In script-merged.js the simulated
  call of the login path throws for \<open>test@error.com\<close> only, and that of the registration
  path never throws.
\<close>

theorem mocked_call_outcomes:
  "(isl (authenticateUser c kind uuid) \<longleftrightarrow>
      get_prop c ''email'' = Str (js ''test@error.com'')
      \<or> get_prop c ''email'' = Str (js ''test@network.com''))
   \<and> (get_prop c ''email'' = Str (js ''test@error.com'') \<longrightarrow>
        authenticateUser c kind uuid = Inl (Error ''Invalid credentials''))
   \<and> (get_prop c ''email'' = Str (js ''test@network.com'') \<longrightarrow>
        authenticateUser c kind uuid = Inl (Error ''Network connection failed''))
   \<and> (get_prop c ''email'' \<noteq> Str (js ''test@error.com'')
        \<and> get_prop c ''email'' \<noteq> Str (js ''test@network.com'') \<longrightarrow>
        (\<exists>r. authenticateUser c kind uuid = Inr r \<and> success r \<and> user_id (user r) = uuid
           \<and> user_email (user r) = get_prop c ''email'' \<and> token r = ''mock-jwt-token''))
   \<and> (isl (login_call_merged c) \<longleftrightarrow> get_prop c ''email'' = Str (js ''test@error.com''))
   \<and> (get_prop c ''email'' = Str (js ''test@error.com'') \<longrightarrow>
        login_call_merged c = Inl (Error ''Invalid credentials''))
   \<and> \<not> isl (register_call_merged c)"
  by (simp add: authenticateUser_def login_call_merged_def register_call_merged_def js_def)

theorem mocked_call_outcomes_witness:
  "authenticateUser [''email'' \<mapsto> js ''test@error.com'', ''password'' \<mapsto> js ''secret''] ''login'' (js ''a'')
     = Inl (Error ''Invalid credentials'')
   \<and> authenticateUser [''email'' \<mapsto> js ''test@network.com'', ''password'' \<mapsto> js ''secret''] ''register'' (js ''a'')
     = Inl (Error ''Network connection failed'')
   \<and> (\<exists>r. authenticateUser good_user ''register'' (js ''a'') = Inr r \<and> success r
         \<and> user_id (user r) = js ''a'' \<and> user_email (user r) = Str (js ''user@example.com'')
         \<and> token r = ''mock-jwt-token'')
   \<and> login_call_merged [''email'' \<mapsto> js ''test@error.com'', ''password'' \<mapsto> js ''secret'']
     = Inl (Error ''Invalid credentials'')"
  using mocked_call_outcomes [of "[''email'' \<mapsto> js ''test@error.com'', ''password'' \<mapsto> js ''secret'']" "''login''" "js ''a''"]
    mocked_call_outcomes [of "[''email'' \<mapsto> js ''test@network.com'', ''password'' \<mapsto> js ''secret'']" "''register''" "js ''a''"]
    mocked_call_outcomes [of good_user "''register''" "js ''a''"]
  by (simp add: get_prop_def good_user_def js_def)

text \<open>
  The claim as stated fails on script-merged.js: a login with \<open>test@network.com\<close> passes
  validation and ends in the success modal, and a registration with \<open>test@error.com\<close>
  does not fail.
\<close>

theorem merged_login_network_sentinel_counterexample:
  "login_call_merged login_network = Inr ()
   \<and> register_call_merged register_error = Inr ()
   \<and> effects (elapse 1500 (handleLogin_merged login_network idle)) =
       [SetButtonLoading True, SetButtonSuccess, ShowSuccessModal ''Welcome back to AlgoRhythm!'']"
proof -
  let ?doc = "clearFieldError_merged ''password-error''
                (clearFieldError_merged ''email-error'' (slots idle))"
  let ?p = "set_timeout 1500 (MergedLoginCall login_network)
              (emit [SetButtonLoading True] (idle\<lparr>slots := ?doc\<rparr>))"
  have v: "validateLoginForm_merged login_network (slots idle) = Inr (True, ?doc)"
    unfolding validateLoginForm_merged_def Let_def password_missing
    by (simp add: report_merged_def login_network_def get_prop_def truthy_def email_defs
        code_unit_defs)
  have call: "login_call_merged login_network = Inr ()"
    by (simp add: login_call_merged_def login_network_def get_prop_def js_def)
  have h: "handleLogin_merged login_network idle = ?p"
    by (simp add: handleLogin_merged_def v)
  have "elapse 1500 ?p =
      run_task (MergedLoginCall login_network) (?p\<lparr>now := now ?p + 1500, timers := []\<rparr>)"
    by (rule elapse_fire) (simp_all add: set_timeout_def emit_def idle_def)
  then have "effects (elapse 1500 ?p) =
       [SetButtonLoading True, SetButtonSuccess, ShowSuccessModal ''Welcome back to AlgoRhythm!'']"
    by (simp add: call set_timeout_def emit_def idle_def)
  then have "effects (elapse 1500 (handleLogin_merged login_network idle)) =
       [SetButtonLoading True, SetButtonSuccess, ShowSuccessModal ''Welcome back to AlgoRhythm!'']"
    unfolding h .
  with call show ?thesis
    by (simp add: register_call_merged_def)
qed

end
